theory Spec2Isabelle
  imports Complex_Main "HOL-Library.Word" "HOL-Library.Sublist" "HOL-Library.AList"
begin

section \<open>JavaScript strings\<close>

text \<open>
  A JavaScript string is a sequence of UTF-16 code units; \<open>length\<close>, \<open>trim\<close> and the
  regular expressions of the source (none has the \<open>u\<close> flag) all work on code units.
\<close>

type_synonym jschar = "16 word"
type_synonym jsstring = "jschar list"

definition js :: "string \<Rightarrow> jsstring" where
  "js s = map (\<lambda>c. of_nat (of_char c)) s"

abbreviation TAB :: jschar where "TAB \<equiv> 0x09"
abbreviation LF :: jschar where "LF \<equiv> 0x0A"
abbreviation CR :: jschar where "CR \<equiv> 0x0D"
abbreviation SP :: jschar where "SP \<equiv> 0x20"

text \<open>
  The class \<open>\s\<close> of an ECMAScript regular expression, which is also the set of code
  units that \<open>String.prototype.trim\<close> strips: WhiteSpace and LineTerminator.
\<close>

definition isWhiteSpace :: "jschar \<Rightarrow> bool" where
  "isWhiteSpace c \<longleftrightarrow>
     c = 0x09 \<or> c = 0x0A \<or> c = 0x0B \<or> c = 0x0C \<or> c = 0x0D \<or> c = 0x20 \<or>
     c = 0xA0 \<or> c = 0x1680 \<or> (0x2000 \<le> c \<and> c \<le> 0x200A) \<or>
     c = 0x2028 \<or> c = 0x2029 \<or> c = 0x202F \<or> c = 0x205F \<or> c = 0x3000 \<or> c = 0xFEFF"

definition trim :: "jsstring \<Rightarrow> jsstring" where
  "trim s = rev (dropWhile isWhiteSpace (rev (dropWhile isWhiteSpace s)))"

section \<open>crawlerService: whitespace normalization\<close>

text \<open>
  \<open>s.replace(/C+/g, r)\<close> for a character class \<open>C\<close>: every maximal run of code units
  in \<open>C\<close> becomes the single code unit \<open>r\<close>.
\<close>

function replace_runs :: "(jschar \<Rightarrow> bool) \<Rightarrow> jschar \<Rightarrow> jsstring \<Rightarrow> jsstring" where
  "replace_runs C r [] = []"
| "replace_runs C r (c # cs) =
     (if C c then r # replace_runs C r (dropWhile C cs) else c # replace_runs C r cs)"
  by pat_completeness auto
termination
  by (relation "measure (\<lambda>(C, r, s). length s)") (auto simp: length_dropWhile_le less_Suc_eq_le)

text \<open>
  \<open>s.replace(/\n\s*\n/g, '\n')\<close>. At a line feed, the greedy \<open>\s*\<close> takes the whole
  whitespace run that follows and backtracks to the last line feed of that run; when the
  run has no line feed there is no match at this position.
\<close>

definition after_last_LF :: "jsstring \<Rightarrow> jsstring" where
  "after_last_LF w = rev (takeWhile (\<lambda>c. c \<noteq> LF) (rev w))"

function replace_blank_lines :: "jsstring \<Rightarrow> jsstring" where
  "replace_blank_lines [] = []"
| "replace_blank_lines (c # cs) =
     (if c = LF \<and> LF \<in> set (takeWhile isWhiteSpace cs)
      then LF # replace_blank_lines (after_last_LF (takeWhile isWhiteSpace cs) @ dropWhile isWhiteSpace cs)
      else c # replace_blank_lines cs)"
  by pat_completeness auto
termination
proof (relation "measure length")
  fix c :: jschar and cs :: jsstring
  have "length (after_last_LF (takeWhile isWhiteSpace cs)) \<le> length (takeWhile isWhiteSpace cs)"
    unfolding after_last_LF_def by (metis length_rev length_takeWhile_le)
  moreover have "length (takeWhile isWhiteSpace cs) + length (dropWhile isWhiteSpace cs) = length cs"
    by (metis length_append takeWhile_dropWhile_id)
  ultimately show "(after_last_LF (takeWhile isWhiteSpace cs) @ dropWhile isWhiteSpace cs, c # cs) \<in> measure length"
    by simp
qed simp_all

text \<open>\<open>s.replace(/[\r\t]/g, ' ')\<close>\<close>

definition replace_cr_tab :: "jsstring \<Rightarrow> jsstring" where
  "replace_cr_tab s = map (\<lambda>c. if c = CR \<or> c = TAB then SP else c) s"

text \<open>
  \<open>cleanText\<close> of \<open>crawlWebsite\<close>: the four replacements, in the source's order, then
  \<open>trim\<close>. \<open>[^\S\n]\<close> is a whitespace code unit other than the line feed.
\<close>

definition cleanText :: "jsstring \<Rightarrow> jsstring" where
  "cleanText text =
     trim (replace_runs (\<lambda>c. isWhiteSpace c \<and> c \<noteq> LF) SP
       (replace_cr_tab
         (replace_blank_lines
           (replace_runs isWhiteSpace SP text))))"

text \<open>
  The properties of a cleaned string: every whitespace code unit is a space that is
  followed by a code unit that is not whitespace (\<open>spaced\<close>), and, weaker, no two
  spaces are adjacent (\<open>no_double_space\<close>).
\<close>

fun spaced :: "jsstring \<Rightarrow> bool" where
  "spaced [] = True"
| "spaced (c # cs) =
     ((isWhiteSpace c \<longrightarrow> c = SP \<and> (cs = [] \<or> \<not> isWhiteSpace (hd cs))) \<and> spaced cs)"

fun no_double_space :: "jsstring \<Rightarrow> bool" where
  "no_double_space (a # b # cs) = (\<not> (a = SP \<and> b = SP) \<and> no_double_space (b # cs))"
| "no_double_space cs = True"

definition clean :: "jsstring \<Rightarrow> bool" where
  "clean t \<longleftrightarrow> TAB \<notin> set t \<and> CR \<notin> set t \<and> no_double_space t"

section \<open>crawlerService: the document tree and the cheerio operations used\<close>

text \<open>
  \<open>cheerio.load(response.data)\<close> gives a tree of elements and text nodes. An element has
  a tag name, attributes and children. A document is the list of the root's children.
\<close>

datatype node = Text jsstring | Element string "(string \<times> jsstring) list" "node list"

type_synonym document = "node list"

text \<open>The selectors that \<open>crawlWebsite\<close> uses: \<open>tag\<close>, \<open>.class\<close>, \<open>[attr="v"]\<close>, \<open>tag[attr="v"]\<close>.\<close>

datatype selector =
    Tag string
  | Class string
  | Attr string string
  | TagAttr string string string

text \<open>The whitespace-separated tokens of a \<open>class\<close> attribute.\<close>

function tokens :: "jsstring \<Rightarrow> jsstring list" where
  "tokens [] = []"
| "tokens (c # cs) =
     (if isWhiteSpace c then tokens cs
      else (c # takeWhile (\<lambda>x. \<not> isWhiteSpace x) cs) # tokens (dropWhile (\<lambda>x. \<not> isWhiteSpace x) cs))"
  by pat_completeness auto
termination
  by (relation "measure length") (auto simp: length_dropWhile_le less_Suc_eq_le)

fun matches :: "selector \<Rightarrow> node \<Rightarrow> bool" where
  "matches sel (Text s) = False"
| "matches (Tag t) (Element tag attrs cs) = (tag = t)"
| "matches (Class c) (Element tag attrs cs) =
     (case map_of attrs ''class'' of None \<Rightarrow> False | Some v \<Rightarrow> js c \<in> set (tokens v))"
| "matches (Attr a v) (Element tag attrs cs) = (map_of attrs a = Some (js v))"
| "matches (TagAttr t a v) (Element tag attrs cs) = (tag = t \<and> map_of attrs a = Some (js v))"

text \<open>\<open>$(sel)\<close>: the elements that match, in document order, nested matches included.\<close>

fun select :: "selector \<Rightarrow> node \<Rightarrow> node list" where
  "select sel (Text s) = []"
| "select sel (Element tag attrs cs) =
     (if matches sel (Element tag attrs cs) then [Element tag attrs cs] else [])
     @ concat (map (select sel) cs)"

definition selectAll :: "selector \<Rightarrow> document \<Rightarrow> node list" where
  "selectAll sel doc = concat (map (select sel) doc)"

text \<open>\<open>.remove()\<close> on a selection detaches every matched element, with its subtree.\<close>

fun removeIn :: "(node \<Rightarrow> bool) \<Rightarrow> node \<Rightarrow> node" where
  "removeIn P (Text s) = Text s"
| "removeIn P (Element tag attrs cs) =
     Element tag attrs (map (removeIn P) (filter (\<lambda>n. \<not> P n) cs))"

definition removeIf :: "(node \<Rightarrow> bool) \<Rightarrow> document \<Rightarrow> document" where
  "removeIf P doc = map (removeIn P) (filter (\<lambda>n. \<not> P n) doc)"

definition remove :: "selector \<Rightarrow> document \<Rightarrow> document" where
  "remove sel doc = removeIf (matches sel) doc"

text \<open>\<open>.text()\<close>: the text of every matched element, descendants included, concatenated.\<close>

fun textContent :: "node \<Rightarrow> jsstring" where
  "textContent (Text s) = s"
| "textContent (Element tag attrs cs) = concat (map textContent cs)"

definition text_of :: "node list \<Rightarrow> jsstring" where
  "text_of sel = concat (map textContent sel)"

text \<open>\<open>.first()\<close> and \<open>.attr(name)\<close>, which reads the first matched element.\<close>

definition first :: "node list \<Rightarrow> node list" where
  "first sel = take 1 sel"

fun attr :: "string \<Rightarrow> node list \<Rightarrow> jsstring option" where
  "attr name (Element tag attrs cs # sel) = map_of attrs name"
| "attr name sel = None"

text \<open>\<open>a || b\<close> where \<open>a\<close> is a string or \<open>undefined\<close>: the empty string is falsy.\<close>

fun truthy :: "jsstring option \<Rightarrow> bool" where
  "truthy None = False"
| "truthy (Some s) = (s \<noteq> [])"

section \<open>crawlerService: crawlWebsite\<close>

text \<open>The eighteen \<open>$(...).remove()\<close> statements, in the source's order.\<close>

definition noise_selectors :: "selector list" where
  "noise_selectors =
     [Tag ''script'', Tag ''style'', Tag ''nav'', Tag ''footer'', Tag ''header'', Tag ''aside'',
      Class ''nav'', Class ''navbar'', Class ''footer'', Class ''header'', Class ''sidebar'',
      Class ''menu'', Attr ''role'' ''navigation'', Attr ''role'' ''banner'',
      Attr ''role'' ''contentinfo'', Tag ''noscript'', Tag ''iframe'', Tag ''svg'']"

definition remove_unwanted :: "document \<Rightarrow> document" where
  "remove_unwanted doc = fold remove noise_selectors doc"

definition extract_title :: "document \<Rightarrow> jsstring" where
  "extract_title doc =
     (let t = trim (text_of (selectAll (Tag ''title'') doc)) in
      if t \<noteq> [] then t else
      let h = trim (text_of (first (selectAll (Tag ''h1'') doc))) in
      if h \<noteq> [] then h else
      case attr ''content'' (selectAll (TagAttr ''meta'' ''property'' ''og:title'') doc) of
        Some og \<Rightarrow> if og \<noteq> [] then og else js ''Untitled''
      | None \<Rightarrow> js ''Untitled'')"

definition extract_headings :: "string \<Rightarrow> document \<Rightarrow> jsstring list" where
  "extract_headings h doc =
     filter (\<lambda>text. text \<noteq> []) (map (\<lambda>element. trim (textContent element)) (selectAll (Tag h) doc))"

definition extract_paragraphs :: "document \<Rightarrow> jsstring list" where
  "extract_paragraphs doc =
     filter (\<lambda>text. text \<noteq> [] \<and> length text > 20)
       (map (\<lambda>element. trim (textContent element)) (selectAll (Tag ''p'') doc))"

definition extract_mainContent :: "document \<Rightarrow> jsstring" where
  "extract_mainContent doc =
     (if selectAll (Tag ''article'') doc \<noteq> [] then text_of (selectAll (Tag ''article'') doc)
      else if selectAll (Tag ''main'') doc \<noteq> [] then text_of (selectAll (Tag ''main'') doc)
      else text_of (selectAll (Tag ''body'') doc))"

definition extract_description :: "document \<Rightarrow> jsstring option" where
  "extract_description doc =
     (let d = attr ''content'' (selectAll (TagAttr ''meta'' ''name'' ''description'') doc) in
      if truthy d then d else
      let og = attr ''content'' (selectAll (TagAttr ''meta'' ''property'' ''og:description'') doc) in
      if truthy og then og else None)"

record headings =
  h1 :: "jsstring list"
  h2 :: "jsstring list"
  h3 :: "jsstring list"
  h4 :: "jsstring list"
  h5 :: "jsstring list"
  h6 :: "jsstring list"

record metadata =
  totalHeadings :: nat
  totalParagraphs :: nat
  textLength :: nat
  rawTextLength :: nat

record structuredContent =
  url :: jsstring
  title :: jsstring
  description :: "jsstring option"
  headings :: headings
  paragraphs :: "jsstring list"
  rawText :: jsstring
  cleanedText :: jsstring
  metadata :: metadata

text \<open>
  The body of \<open>crawlWebsite\<close> from \<open>cheerio.load\<close> to \<open>return structuredContent\<close>.
  \<open>crawledAt\<close>, the time of the call, is left out of \<open>metadata\<close>.
\<close>

definition structure_content :: "jsstring \<Rightarrow> document \<Rightarrow> structuredContent" where
  "structure_content validUrl loaded =
     (let doc = remove_unwanted loaded;
          title = extract_title doc;
          hs1 = extract_headings ''h1'' doc; hs2 = extract_headings ''h2'' doc;
          hs3 = extract_headings ''h3'' doc; hs4 = extract_headings ''h4'' doc;
          hs5 = extract_headings ''h5'' doc; hs6 = extract_headings ''h6'' doc;
          paragraphs = extract_paragraphs doc;
          rawText = extract_mainContent doc;
          cleanedText = cleanText rawText;
          description = extract_description doc
      in \<lparr> url = validUrl,
           title = cleanText title,
           description = (if truthy description then map_option cleanText description else None),
           headings = \<lparr> h1 = map cleanText hs1, h2 = map cleanText hs2, h3 = map cleanText hs3,
                        h4 = map cleanText hs4, h5 = map cleanText hs5, h6 = map cleanText hs6 \<rparr>,
           paragraphs = map cleanText paragraphs,
           rawText = rawText,
           cleanedText = cleanedText,
           metadata = \<lparr> totalHeadings = length (hs1 @ hs2 @ hs3 @ hs4 @ hs5 @ hs6),
                        totalParagraphs = length paragraphs,
                        textLength = length cleanedText,
                        rawTextLength = length rawText \<rparr> \<rparr>)"

text \<open>
  What \<open>axios.get\<close> rejects with: \<open>error.response.status\<close> when the server answered
  with a status outside 200..399, \<open>error.request\<close> when nothing came back, \<open>error.code\<close>.
\<close>

record request_error =
  response_status :: "int option"
  request_sent :: bool
  error_code :: "string option"

datatype crawl_error =
    Forbidden
  | PageNotFound
  | TooManyRequests
  | ServerError int
  | FailedToFetch int
  | NetworkError
  | DnsError
  | ConnectionRefused
  | RequestTimeout
  | SslCertificateError
  | FailedToCrawl

definition crawl_catch :: "request_error \<Rightarrow> crawl_error" where
  "crawl_catch error =
     (case response_status error of
        Some status \<Rightarrow>
          if status = 403 then Forbidden
          else if status = 404 then PageNotFound
          else if status = 429 then TooManyRequests
          else if status \<ge> 500 then ServerError status
          else FailedToFetch status
      | None \<Rightarrow>
          if request_sent error then NetworkError
          else if error_code error = Some ''ENOTFOUND'' then DnsError
          else if error_code error = Some ''ECONNREFUSED'' then ConnectionRefused
          else if error_code error = Some ''ETIMEDOUT'' \<or> error_code error = Some ''ECONNABORTED'' then RequestTimeout
          else if error_code error = Some ''CERT_HAS_EXPIRED''
                \<or> error_code error = Some ''UNABLE_TO_VERIFY_LEAF_SIGNATURE'' then SslCertificateError
          else FailedToCrawl)"

text \<open>
  \<open>crawlWebsite(url)\<close>. The parameter \<open>get\<close> stands for the network and the HTML
  parser: \<open>axios.get(validUrl, ...)\<close> followed by \<open>cheerio.load\<close>.
\<close>

definition crawlWebsite ::
  "(jsstring \<Rightarrow> request_error + document) \<Rightarrow> jsstring \<Rightarrow> crawl_error + structuredContent" where
  "crawlWebsite get url_arg =
     (if url_arg = [] then Inl FailedToCrawl
      else
        let validUrl = trim url_arg;
            validUrl = (if \<not> prefix (js ''http://'') validUrl \<and> \<not> prefix (js ''https://'') validUrl
                        then js ''https://'' @ validUrl else validUrl)
        in case get validUrl of
             Inl error \<Rightarrow> Inl (crawl_catch error)
           | Inr loaded \<Rightarrow> Inr (structure_content validUrl loaded))"

text \<open>
  An element is noise when one of the eighteen selectors matches it.
\<close>

definition is_noise :: "node \<Rightarrow> bool" where
  "is_noise n = list_ex (\<lambda>sel. matches sel n) noise_selectors"



text \<open>Concrete pages, used to evaluate \<open>structure_content\<close>.\<close>

definition page_scenario :: "jsstring \<Rightarrow> document" where
  "page_scenario script =
     [Element ''html'' []
        [Element ''head'' [] [Element ''title'' [] [Text (js ''T'')]],
         Element ''body'' []
           [Element ''script'' [] [Text script],
            Element ''article'' []
              [Element ''h1'' [] [Text (js ''H'')],
               Element ''p'' [] [Text (js ''This paragraph is definitely long enough.'')]]]]]"

definition page_scenario_stripped :: document where
  "page_scenario_stripped =
     [Element ''html'' []
        [Element ''head'' [] [Element ''title'' [] [Text (js ''T'')]],
         Element ''body'' []
           [Element ''article'' []
              [Element ''h1'' [] [Text (js ''H'')],
               Element ''p'' [] [Text (js ''This paragraph is definitely long enough.'')]]]]]"

definition page_spaced_paragraph :: document where
  "page_spaced_paragraph =
     [Element ''html'' []
        [Element ''head'' []
           [Element ''title'' [] [Text (js ''T'')],
            Element ''meta'' [(''name'', js ''description''), (''content'', js ''D  d'')] []],
         Element ''body'' []
           [Element ''h2'' [] [Text [0x48, TAB, 0x68]],
            Element ''p'' [] [Text (js ''a                    b'')]]]]"

definition page_blank_og_title :: document where
  "page_blank_og_title =
     [Element ''html'' []
        [Element ''head'' []
           [Element ''meta'' [(''property'', js ''og:title''), (''content'', js '' '')] []],
         Element ''body'' [] []]]"


section \<open>openaiService: numbers and the requested count\<close>

text \<open>
  A JavaScript number, with the finite values as reals. \<open>count\<close> is the number that
  \<open>Math.floor\<close> sees; \<open>None\<close> is a missing argument, replaced by the default value of
  the parameter.
\<close>

datatype jsnumber = Finite real | NaN | PosInfinity | NegInfinity

fun Math_floor :: "jsnumber \<Rightarrow> jsnumber" where
  "Math_floor (Finite r) = Finite (of_int \<lfloor>r\<rfloor>)"
| "Math_floor x = x"

fun Math_max :: "jsnumber \<Rightarrow> jsnumber \<Rightarrow> jsnumber" where
  "Math_max NaN y = NaN"
| "Math_max x NaN = NaN"
| "Math_max PosInfinity y = PosInfinity"
| "Math_max x PosInfinity = PosInfinity"
| "Math_max NegInfinity y = y"
| "Math_max x NegInfinity = x"
| "Math_max (Finite a) (Finite b) = Finite (max a b)"

fun Math_min :: "jsnumber \<Rightarrow> jsnumber \<Rightarrow> jsnumber" where
  "Math_min NaN y = NaN"
| "Math_min x NaN = NaN"
| "Math_min NegInfinity y = NegInfinity"
| "Math_min x NegInfinity = NegInfinity"
| "Math_min PosInfinity y = y"
| "Math_min x PosInfinity = x"
| "Math_min (Finite a) (Finite b) = Finite (min a b)"

text \<open>\<open>a || b\<close> on numbers: \<open>0\<close> and \<open>NaN\<close> are falsy.\<close>

fun or_number :: "jsnumber \<Rightarrow> jsnumber \<Rightarrow> jsnumber" where
  "or_number (Finite r) d = (if r = 0 then d else Finite r)"
| "or_number NaN d = d"
| "or_number x d = x"

text \<open>
  Modelled from the spec: the constants of \<open>utils/constants.js\<close>, which is not among
  the sources. The spec gives the baseline count 5 and the text bound of 10,000
  characters; the integration notes of the repository list the same two values.
\<close>

definition DEFAULT_FAQ_COUNT :: jsnumber where
  "DEFAULT_FAQ_COUNT = Finite 5"

definition MAX_TEXT_LENGTH :: nat where
  "MAX_TEXT_LENGTH = 10000"

text \<open>\<open>Math.min(Math.max(Math.floor(count) || DEFAULT_FAQ_COUNT, 5), 10)\<close>\<close>

definition faqCount :: "jsnumber option \<Rightarrow> jsnumber" where
  "faqCount count =
     (let count = (case count of None \<Rightarrow> DEFAULT_FAQ_COUNT | Some c \<Rightarrow> c)
      in Math_min (Math_max (or_number (Math_floor count) DEFAULT_FAQ_COUNT) (Finite 5)) (Finite 10))"

text \<open>
  The count as a length. \<open>faqCount\<close> is always one of the integers 5..10 (lemma
  \<open>faqCount_range\<close>), so nothing is lost.
\<close>

fun count_of :: "jsnumber \<Rightarrow> nat" where
  "count_of (Finite r) = nat \<lfloor>r\<rfloor>"
| "count_of x = 0"

section \<open>openaiService: values and errors\<close>

text \<open>
  The values that \<open>JSON.parse\<close> returns. An object is the list of its properties, in
  order, each key once; \<open>map_of\<close> reads a property.
\<close>

datatype json =
    JNull
  | JBool bool
  | JNumber real
  | JString jsstring
  | JArray "json list"
  | JObject "(jsstring \<times> json) list"

text \<open>
  \<open>JSON.parse\<close> is a parameter of the model: \<open>None\<close> is a \<open>SyntaxError\<close>.
\<close>

type_synonym json_parse = "jsstring \<Rightarrow> json option"

text \<open>
  What the provider's client rejects with: \<open>error.status\<close>, the status of
  \<open>error.response\<close> when the error has one, and \<open>error.message\<close>.
\<close>

record api_error =
  error_status :: "int option"
  error_response :: "int option"
  error_message :: jsstring

text \<open>The messages of the \<open>new Error(...)\<close> of the service, with their parameters.\<close>

datatype msg =
    ApiKeyNotDefined
  | TextRequired
  | NoFaqsGenerated
  | NotAnObject nat
  | MissingQuestion nat
  | MissingAnswer nat
  | FailedToGenerateExactly nat nat
  | CountMismatch nat nat
  | EmptyResponse
  | ResponseNotArray

text \<open>What is thrown inside the \<open>try\<close> block of \<open>generateFaqs\<close>.\<close>

datatype thrown =
    JsError msg
  | JsSyntaxError
  | JsTypeError
  | ApiError api_error
  | JsUndefined

text \<open>
  What \<open>generateFaqs\<close> rejects with, one constructor for each \<open>throw\<close> of its
  \<open>catch\<close> block: \<open>Rate limit exceeded\<close>, \<open>OpenAI API error (status)\<close>,
  \<open>OpenAI API server error (status)\<close>, \<open>OpenAI API error: ...\<close> for a response with
  another status, \<open>Failed to parse FAQ response\<close>, \<open>OpenAI API error: message\<close> around
  the message of what was caught, and what was caught itself.
\<close>

datatype failure =
    RateLimitExceeded
  | ApiClientError int
  | ApiServerError int
  | ApiResponseError
  | FailedToParse
  | OpenAIApiError thrown
  | Rethrown thrown

text \<open>The value of \<open>response.choices\<close>: the \<open>message.content\<close> of each choice.\<close>

type_synonym completion = "jsstring option list"

text \<open>
  The prompt, reduced to the two values that the template interpolates.
\<close>

record prompt =
  prompt_count :: nat
  prompt_text :: jsstring

text \<open>
  The provider: the outcome of the call of \<open>openai.chat.completions.create\<close> number
  \<open>attempt\<close> for a prompt.
\<close>

type_synonym provider = "prompt \<Rightarrow> nat \<Rightarrow> api_error + completion"

text \<open>What a call does that is not its result: requests to the provider and sleeps (ms).\<close>

datatype event = Create nat | Sleep nat

record environment =
  OPENAI_API_KEY :: "jsstring option"

section \<open>openaiService: makeOpenAIRequest\<close>

definition client_error :: "api_error \<Rightarrow> bool" where
  "client_error error =
     (case error_status error of None \<Rightarrow> False | Some s \<Rightarrow> s \<ge> 400 \<and> s < 500)"

text \<open>
  The \<open>for\<close> loop, from \<open>attempt\<close> on. The result comes with the events in order.
  After the loop \<open>lastError\<close> is thrown; it is \<open>undefined\<close> before the first failure.
\<close>

function makeOpenAIRequest_loop ::
  "(nat \<Rightarrow> api_error + completion) \<Rightarrow> nat \<Rightarrow> nat \<Rightarrow> thrown \<Rightarrow> (thrown + completion) \<times> event list" where
  "makeOpenAIRequest_loop create retries attempt lastError =
     (if attempt \<le> retries then
        (case create attempt of
           Inr completion \<Rightarrow> (Inr completion, [Create attempt])
         | Inl error \<Rightarrow>
             if client_error error then (Inl (ApiError error), [Create attempt])
             else if attempt < retries then
               (let delay = 2 ^ attempt * 1000;
                    (result, events) = makeOpenAIRequest_loop create retries (attempt + 1) (ApiError error)
                in (result, Create attempt # Sleep delay # events))
             else
               (let (result, events) = makeOpenAIRequest_loop create retries (attempt + 1) (ApiError error)
                in (result, Create attempt # events)))
      else (Inl lastError, []))"
  by pat_completeness auto
termination
  by (relation "measure (\<lambda>(create, retries, attempt, lastError). Suc retries - attempt)") auto

definition makeOpenAIRequest ::
  "(nat \<Rightarrow> api_error + completion) \<Rightarrow> nat \<Rightarrow> (thrown + completion) \<times> event list" where
  "makeOpenAIRequest create retries = makeOpenAIRequest_loop create retries 0 JsUndefined"

section \<open>openaiService: parseFaqResponse\<close>

abbreviation BACKTICK :: jschar where "BACKTICK \<equiv> 0x60"
abbreviation LBRACKET :: jschar where "LBRACKET \<equiv> 0x5B"
abbreviation RBRACKET :: jschar where "RBRACKET \<equiv> 0x5D"

text \<open>
  \<open>s.replace(/FENCE\s*/g, '')\<close> for a literal \<open>FENCE\<close>: every occurrence, found from
  left to right, is deleted with the whitespace that follows it.
\<close>

function remove_fence :: "jsstring \<Rightarrow> jsstring \<Rightarrow> jsstring" where
  "remove_fence fence [] = []"
| "remove_fence fence (c # cs) =
     (if fence \<noteq> [] \<and> prefix fence (c # cs)
      then remove_fence fence (dropWhile isWhiteSpace (drop (length fence) (c # cs)))
      else c # remove_fence fence cs)"
  by pat_completeness auto
termination
proof (relation "measure (\<lambda>(fence, s). length s)")
  fix fence :: jsstring and c :: jschar and cs :: jsstring
  assume "fence \<noteq> [] \<and> prefix fence (c # cs)"
  then have "length (drop (length fence) (c # cs)) < length (c # cs)"
    by (cases fence) simp_all
  moreover have "length (dropWhile isWhiteSpace (drop (length fence) (c # cs)))
      \<le> length (drop (length fence) (c # cs))"
    by (rule length_dropWhile_le)
  ultimately show "((fence, dropWhile isWhiteSpace (drop (length fence) (c # cs))), fence, c # cs)
      \<in> measure (\<lambda>(fence, s). length s)"
    by simp
qed simp_all

text \<open>
  \<open>content.trim()\<close>, then
  \<open>.replace(/```json\s*/g, '').replace(/```\s*/g, '').trim()\<close>.
\<close>

definition strip_fences :: "jsstring \<Rightarrow> jsstring" where
  "strip_fences content =
     trim (remove_fence (js ''```'') (remove_fence (js ''```json'') (trim content)))"

text \<open>
  \<open>jsonString.match(/\[[\s\S]*\]/)\<close>: from the first \<open>[\<close> to the last \<open>]\<close> after it;
  no match when there is no \<open>[\<close>, or no \<open>]\<close> after the first one.
\<close>

definition match_array :: "jsstring \<Rightarrow> jsstring option" where
  "match_array s =
     (case dropWhile (\<lambda>c. c \<noteq> LBRACKET) s of
        [] \<Rightarrow> None
      | c # cs \<Rightarrow>
          (case rev (dropWhile (\<lambda>c. c \<noteq> RBRACKET) (rev cs)) of
             [] \<Rightarrow> None
           | inner \<Rightarrow> Some (c # inner)))"

text \<open>
  The inner \<open>try\<close>: the direct decode and the two early returns. \<open>None\<close> is every way
  of reaching the code after the inner \<open>catch\<close>: a decode that fails, a value that is
  neither an array nor an object with an array in \<open>faqs\<close>, and \<open>null\<close>, whose
  \<open>parsed.faqs\<close> throws into the empty \<open>catch\<close>.
\<close>

definition direct_decode :: "json_parse \<Rightarrow> jsstring \<Rightarrow> json list option" where
  "direct_decode JSON_parse jsonString =
     (case JSON_parse jsonString of
        None \<Rightarrow> None
      | Some (JObject properties) \<Rightarrow>
          (case map_of properties (js ''faqs'') of Some (JArray faqs) \<Rightarrow> Some faqs | _ \<Rightarrow> None)
      | Some (JArray faqs) \<Rightarrow> Some faqs
      | Some _ \<Rightarrow> None)"

definition parseFaqResponse :: "json_parse \<Rightarrow> completion \<Rightarrow> thrown + json list" where
  "parseFaqResponse JSON_parse choices =
     (case choices of
        [] \<Rightarrow> Inl JsTypeError
      | None # _ \<Rightarrow> Inl (JsError EmptyResponse)
      | Some content # _ \<Rightarrow>
          if content = [] then Inl (JsError EmptyResponse)
          else
            let jsonString = strip_fences content in
            (case direct_decode JSON_parse jsonString of
               Some faqs \<Rightarrow> Inr faqs
             | None \<Rightarrow>
                 let jsonString = (case match_array jsonString of Some m \<Rightarrow> m | None \<Rightarrow> jsonString)
                 in (case JSON_parse jsonString of
                       None \<Rightarrow> Inl JsSyntaxError
                     | Some (JArray faqs) \<Rightarrow> Inr faqs
                     | Some _ \<Rightarrow> Inl (JsError ResponseNotArray))))"

section \<open>openaiService: generateFaqs\<close>

text \<open>\<open>faq.question\<close>: a property of an object; an array has no such property.\<close>

fun property :: "json \<Rightarrow> jsstring \<Rightarrow> json option" where
  "property (JObject properties) k = map_of properties k"
| "property v k = None"

text \<open>\<open>!faq || typeof faq !== 'object'\<close> is false for objects and arrays only.\<close>

fun is_object :: "json \<Rightarrow> bool" where
  "is_object (JObject properties) = True"
| "is_object (JArray vs) = True"
| "is_object v = False"

text \<open>
  \<open>!v || typeof v !== 'string' || v.trim().length === 0\<close> is false for the strings
  that have a code unit that is not whitespace.
\<close>

fun nonblank_string :: "json option \<Rightarrow> bool" where
  "nonblank_string (Some (JString s)) = (s \<noteq> [] \<and> trim s \<noteq> [])"
| "nonblank_string v = False"

text \<open>\<open>faq.question = faq.question.trim()\<close>\<close>

fun trim_property :: "jsstring \<Rightarrow> json \<Rightarrow> json" where
  "trim_property k (JObject properties) =
     (case map_of properties k of
        Some (JString s) \<Rightarrow> JObject (AList.update k (JString (trim s)) properties)
      | _ \<Rightarrow> JObject properties)"
| "trim_property k v = v"

definition trim_faq :: "json \<Rightarrow> json" where
  "trim_faq faq = trim_property (js ''answer'') (trim_property (js ''question'') faq)"

text \<open>The validation loop, from index \<open>i\<close> on; it returns the items, trimmed.\<close>

fun validate_from :: "nat \<Rightarrow> json list \<Rightarrow> thrown + json list" where
  "validate_from i [] = Inr []"
| "validate_from i (faq # faqs) =
     (if \<not> is_object faq then Inl (JsError (NotAnObject i))
      else if \<not> nonblank_string (property faq (js ''question'')) then Inl (JsError (MissingQuestion i))
      else if \<not> nonblank_string (property faq (js ''answer'')) then Inl (JsError (MissingAnswer i))
      else (case validate_from (Suc i) faqs of
              Inl e \<Rightarrow> Inl e
            | Inr rest \<Rightarrow> Inr (trim_faq faq # rest)))"

text \<open>
  From \<open>if (!Array.isArray(faqs))\<close> to \<open>return faqs\<close>. \<open>parseFaqResponse\<close> returns
  arrays only, so the first test never fails.
\<close>

definition check_faqs :: "nat \<Rightarrow> json list \<Rightarrow> thrown + json list" where
  "check_faqs n faqs =
     (if length faqs = 0 then Inl (JsError NoFaqsGenerated)
      else case validate_from 0 faqs of
        Inl e \<Rightarrow> Inl e
      | Inr faqs \<Rightarrow>
          (case (if length faqs > n then Inr (take n faqs)
                 else if length faqs < n then Inl (JsError (FailedToGenerateExactly n (length faqs)))
                 else Inr faqs) of
             Inl e \<Rightarrow> Inl e
           | Inr faqs \<Rightarrow>
               if length faqs \<noteq> n then Inl (JsError (CountMismatch n (length faqs)))
               else Inr faqs))"

definition make_prompt :: "jsstring \<Rightarrow> jsnumber option \<Rightarrow> prompt" where
  "make_prompt text count =
     \<lparr> prompt_count = count_of (faqCount count),
       prompt_text = (if length text > MAX_TEXT_LENGTH then take MAX_TEXT_LENGTH text @ js ''...''
                      else text) \<rparr>"

text \<open>The \<open>try\<close> block of \<open>generateFaqs\<close>.\<close>

definition generateFaqs_try ::
  "json_parse \<Rightarrow> environment \<Rightarrow> provider \<Rightarrow> jsstring \<Rightarrow> jsnumber option
     \<Rightarrow> (thrown + json list) \<times> event list" where
  "generateFaqs_try JSON_parse env openai text count =
     (if \<not> truthy (OPENAI_API_KEY env) then (Inl (JsError ApiKeyNotDefined), [])
      else if text = [] \<or> length (trim text) = 0 then (Inl (JsError TextRequired), [])
      else
        let prompt = make_prompt text count;
            (response, events) = makeOpenAIRequest (openai prompt) 2
        in (case response of
              Inl error \<Rightarrow> (Inl error, events)
            | Inr completion \<Rightarrow>
                (case parseFaqResponse JSON_parse completion of
                   Inl error \<Rightarrow> (Inl error, events)
                 | Inr faqs \<Rightarrow> (check_faqs (count_of (faqCount count)) faqs, events))))"

text \<open>
  The \<open>catch\<close> block of \<open>generateFaqs\<close>. An error with a response is taken to
  carry \<open>response.data\<close>. \<open>undefined\<close>, which \<open>makeOpenAIRequest\<close> throws only
  when its loop never ran, has no property to read: the test \<open>error.response\<close> itself
  throws a type error.
\<close>

fun generateFaqs_catch :: "thrown \<Rightarrow> failure" where
  "generateFaqs_catch (ApiError error) =
     (case error_response error of
        Some status \<Rightarrow>
          if status = 429 then RateLimitExceeded
          else if status \<ge> 400 \<and> status < 500 then ApiClientError status
          else if status \<ge> 500 then ApiServerError status
          else ApiResponseError
      | None \<Rightarrow>
          if error_message error \<noteq> [] then OpenAIApiError (ApiError error)
          else Rethrown (ApiError error))"
| "generateFaqs_catch JsSyntaxError = FailedToParse"
| "generateFaqs_catch JsUndefined = Rethrown JsTypeError"
| "generateFaqs_catch error = OpenAIApiError error"

definition generateFaqs ::
  "json_parse \<Rightarrow> environment \<Rightarrow> provider \<Rightarrow> jsstring \<Rightarrow> jsnumber option
     \<Rightarrow> (failure + json list) \<times> event list" where
  "generateFaqs JSON_parse env openai text count =
     (case generateFaqs_try JSON_parse env openai text count of
        (Inl error, events) \<Rightarrow> (Inl (generateFaqs_catch error), events)
      | (Inr faqs, events) \<Rightarrow> (Inr faqs, events))"

text \<open>An item that passes the three tests of the validation loop.\<close>

definition valid_faq :: "json \<Rightarrow> bool" where
  "valid_faq faq \<longleftrightarrow>
     is_object faq \<and> nonblank_string (property faq (js ''question''))
       \<and> nonblank_string (property faq (js ''answer''))"

text \<open>The message that the validation loop throws for an item that fails a test.\<close>

definition validation_msg :: "nat \<Rightarrow> json \<Rightarrow> msg" where
  "validation_msg i faq =
     (if \<not> is_object faq then NotAnObject i
      else if \<not> nonblank_string (property faq (js ''question'')) then MissingQuestion i
      else MissingAnswer i)"

text \<open>
  The requests and sleeps of a call whose request number \<open>k\<close> is the last one.
\<close>

definition events_until :: "nat \<Rightarrow> event list" where
  "events_until k = concat (map (\<lambda>j. [Create j, Sleep (2 ^ j * 1000)]) [0..<k]) @ [Create k]"

text \<open>
  How the loop ends at request \<open>k\<close>: with the completion, or with the error when it is
  a client error or when \<open>k\<close> is the last attempt; \<open>None\<close> when the loop goes on.
\<close>

definition outcome_at ::
  "(nat \<Rightarrow> api_error + completion) \<Rightarrow> nat \<Rightarrow> nat \<Rightarrow> (thrown + completion) option" where
  "outcome_at create retries k =
     (case create k of
        Inr completion \<Rightarrow> Some (Inr completion)
      | Inl error \<Rightarrow>
          if client_error error \<or> k = retries then Some (Inl (ApiError error)) else None)"

text \<open>The same events, from request \<open>a\<close> on.\<close>

definition events_from :: "nat \<Rightarrow> nat \<Rightarrow> event list" where
  "events_from a k = concat (map (\<lambda>j. [Create j, Sleep (2 ^ j * 1000)]) [a..<k]) @ [Create k]"

section \<open>Concrete responses, used to evaluate generateFaqs\<close>

definition faq_item :: "string \<Rightarrow> string \<Rightarrow> json" where
  "faq_item q a = JObject [(js ''question'', JString (js q)), (js ''answer'', JString (js a))]"

definition five_items :: "json list" where
  "five_items =
     [faq_item ''Q1'' ''A1'', faq_item ''Q2'' ''A2'', faq_item ''Q3'' ''A3'',
      faq_item ''Q4'' ''A4'', faq_item ''Q5'' ''A5'']"

definition six_items :: "json list" where
  "six_items = five_items @ [faq_item ''Q6'' ''A6'']"

definition six_items_blank :: "json list" where
  "six_items_blank = five_items @ [faq_item ''Q6'' '' '']"

definition five_text :: string where
  \<open>five_text = ''{"faqs":[{"question":"Q1","answer":"A1"},{"question":"Q2","answer":"A2"},{"question":"Q3","answer":"A3"},{"question":"Q4","answer":"A4"},{"question":"Q5","answer":"A5"}]}''\<close>

definition six_text :: string where
  \<open>six_text = ''{"faqs":[{"question":"Q1","answer":"A1"},{"question":"Q2","answer":"A2"},{"question":"Q3","answer":"A3"},{"question":"Q4","answer":"A4"},{"question":"Q5","answer":"A5"},{"question":"Q6","answer":"A6"}]}''\<close>

definition six_blank_text :: string where
  \<open>six_blank_text = ''{"faqs":[{"question":"Q1","answer":"A1"},{"question":"Q2","answer":"A2"},{"question":"Q3","answer":"A3"},{"question":"Q4","answer":"A4"},{"question":"Q5","answer":"A5"},{"question":"Q6","answer":" "}]}''\<close>

definition fenced :: "string \<Rightarrow> string" where
  "fenced body = ''```json'' @ [CHR 0x0A] @ body @ [CHR 0x0A] @ ''```''"

text \<open>
  A response whose first answer is a code fence, and the same text with the fence
  deleted, which leaves the first answer empty.
\<close>

definition fence_answer_items :: "json list" where
  "fence_answer_items =
     [faq_item ''Q1'' ''```'', faq_item ''Q2'' ''A2'', faq_item ''Q3'' ''A3'',
      faq_item ''Q4'' ''A4'', faq_item ''Q5'' ''A5'']"

definition empty_answer_items :: "json list" where
  "empty_answer_items =
     [faq_item ''Q1'' [], faq_item ''Q2'' ''A2'', faq_item ''Q3'' ''A3'',
      faq_item ''Q4'' ''A4'', faq_item ''Q5'' ''A5'']"

definition fence_answer_text :: string where
  \<open>fence_answer_text = ''{"faqs":[{"question":"Q1","answer":"```"},{"question":"Q2","answer":"A2"},{"question":"Q3","answer":"A3"},{"question":"Q4","answer":"A4"},{"question":"Q5","answer":"A5"}]}''\<close>

definition empty_answer_text :: string where
  \<open>empty_answer_text = ''{"faqs":[{"question":"Q1","answer":""},{"question":"Q2","answer":"A2"},{"question":"Q3","answer":"A3"},{"question":"Q4","answer":"A4"},{"question":"Q5","answer":"A5"}]}''\<close>

text \<open>
  \<open>JSON.parse\<close> on the texts above and on \<open>[]\<close>. The other strings that the
  evaluations below decode, \<open>oops\<close>, \<open>Sure: []\<close>, \<open>Sure: [] or []\<close> and
  \<open>[] or []\<close>, are not JSON.
\<close>

definition JSON_parse_sample :: json_parse where
  "JSON_parse_sample s =
     (if s = js five_text then Some (JObject [(js ''faqs'', JArray five_items)])
      else if s = js six_text then Some (JObject [(js ''faqs'', JArray six_items)])
      else if s = js six_blank_text then Some (JObject [(js ''faqs'', JArray six_items_blank)])
      else if s = js fence_answer_text then Some (JObject [(js ''faqs'', JArray fence_answer_items)])
      else if s = js empty_answer_text then Some (JObject [(js ''faqs'', JArray empty_answer_items)])
      else if s = js ''[]'' then Some (JArray [])
      else None)"

text \<open>
  A response of six items whose first question and answer have whitespace around them,
  with \<open>JSON.parse\<close> on its text.
\<close>

definition padded_items :: "json list" where
  "padded_items =
     [faq_item '' Q1'' ''A1 '', faq_item ''Q2'' ''A2'', faq_item ''Q3'' ''A3'',
      faq_item ''Q4'' ''A4'', faq_item ''Q5'' ''A5'', faq_item ''Q6'' ''A6'']"

definition padded_text :: string where
  \<open>padded_text = ''{"faqs":[{"question":" Q1","answer":"A1 "},{"question":"Q2","answer":"A2"},{"question":"Q3","answer":"A3"},{"question":"Q4","answer":"A4"},{"question":"Q5","answer":"A5"},{"question":"Q6","answer":"A6"}]}''\<close>

definition JSON_parse_padded :: json_parse where
  "JSON_parse_padded s =
     (if s = js padded_text then Some (JObject [(js ''faqs'', JArray padded_items)]) else None)"




definition env_sample :: environment where
  "env_sample = \<lparr> OPENAI_API_KEY = Some (js ''sk'') \<rparr>"

definition server_error_500 :: api_error where
  "server_error_500 = \<lparr> error_status = Some 500, error_response = None, error_message = js ''e'' \<rparr>"

definition unauthorized_401 :: api_error where
  "unauthorized_401 = \<lparr> error_status = Some 401, error_response = None, error_message = js ''e'' \<rparr>"

text \<open>
  A provider that answers at once, one that fails twice with a 500 first, and one that
  rejects every request with a 401.
\<close>

definition answers :: "string \<Rightarrow> provider" where
  "answers content = (\<lambda>prompt attempt. Inr [Some (js content)])"

definition fails_twice_then_answers :: "string \<Rightarrow> provider" where
  "fails_twice_then_answers content =
     (\<lambda>prompt attempt. if attempt < 2 then Inl server_error_500 else Inr [Some (js content)])"

definition rejects :: provider where
  "rejects = (\<lambda>prompt attempt. Inl unauthorized_401)"

section \<open>Whitespace normalization: lemmas\<close>

lemma isWhiteSpace_simps [simp]:
  "isWhiteSpace SP" "isWhiteSpace LF" "isWhiteSpace CR" "isWhiteSpace TAB"
  by (simp_all add: isWhiteSpace_def)

lemma replace_runs_Nil_iff [simp]: "replace_runs C r s = [] \<longleftrightarrow> s = []"
  by (cases s) simp_all

lemma hd_replace_runs: "s \<noteq> [] \<Longrightarrow> \<not> C (hd s) \<Longrightarrow> hd (replace_runs C r s) = hd s"
  by (cases s) simp_all

lemma dropWhile_hd: "dropWhile P s = [] \<or> \<not> P (hd (dropWhile P s))"
  using hd_dropWhile [of P s] by blast

lemma spaced_replace_runs: "spaced (replace_runs isWhiteSpace SP s)"
proof (induction "isWhiteSpace" SP s rule: replace_runs.induct)
  case 1
  show ?case by simp
next
  case (2 c cs)
  show ?case
  proof (cases "isWhiteSpace c")
    case True
    let ?d = "dropWhile isWhiteSpace cs"
    have "replace_runs isWhiteSpace SP ?d = [] \<or>
          \<not> isWhiteSpace (hd (replace_runs isWhiteSpace SP ?d))"
    proof (cases "?d = []")
      case True
      then show ?thesis by simp
    next
      case False
      then have "\<not> isWhiteSpace (hd ?d)" by (rule hd_dropWhile)
      with False show ?thesis by (simp add: hd_replace_runs)
    qed
    moreover have "spaced (replace_runs isWhiteSpace SP ?d)" using 2 True by simp
    ultimately show ?thesis using True by simp
  next
    case False
    with 2 show ?thesis by simp
  qed
qed

lemma spaced_no_LF: "spaced s \<Longrightarrow> LF \<notin> set s"
  by (induction s) auto

lemma spaced_no_CR: "spaced s \<Longrightarrow> CR \<notin> set s"
  by (induction s) auto

lemma spaced_no_TAB: "spaced s \<Longrightarrow> TAB \<notin> set s"
  by (induction s) auto

lemma replace_blank_lines_id: "LF \<notin> set s \<Longrightarrow> replace_blank_lines s = s"
  by (induction s) auto

lemma replace_cr_tab_id: "CR \<notin> set s \<Longrightarrow> TAB \<notin> set s \<Longrightarrow> replace_cr_tab s = s"
  unfolding replace_cr_tab_def by (induction s) auto

lemma replace_runs_id:
  "spaced s \<Longrightarrow> (\<And>c. C c \<Longrightarrow> isWhiteSpace c) \<Longrightarrow> replace_runs C SP s = s"
proof (induction s)
  case Nil
  show ?case by simp
next
  case (Cons c cs)
  then have ih: "replace_runs C SP cs = cs" by simp
  show ?case
  proof (cases "C c")
    case True
    then have ws: "isWhiteSpace c" using Cons.prems(2) by blast
    with Cons.prems(1) have c: "c = SP" and tl: "cs = [] \<or> \<not> isWhiteSpace (hd cs)" by auto
    from tl have "dropWhile C cs = cs"
      using Cons.prems(2) by (cases cs) auto
    with True c ih show ?thesis by simp
  next
    case False
    with ih show ?thesis by simp
  qed
qed

lemma spaced_append_right: "spaced (xs @ ys) \<Longrightarrow> spaced ys"
  by (induction xs) auto

lemma spaced_append_left: "spaced (xs @ ys) \<Longrightarrow> spaced xs"
proof (induction xs)
  case Nil
  show ?case by simp
next
  case (Cons x xs)
  then show ?case by (cases xs) auto
qed

lemma spaced_dropWhile: "spaced s \<Longrightarrow> spaced (dropWhile P s)"
  using spaced_append_right [of "takeWhile P s" "dropWhile P s"] by simp

lemma spaced_rev_dropWhile_rev: "spaced s \<Longrightarrow> spaced (rev (dropWhile P (rev s)))"
proof -
  assume s: "spaced s"
  have "rev (takeWhile P (rev s) @ dropWhile P (rev s)) = s"
    by (simp only: takeWhile_dropWhile_id rev_rev_ident)
  then have "rev (dropWhile P (rev s)) @ rev (takeWhile P (rev s)) = s"
    by (simp only: rev_append)
  with s show ?thesis
    using spaced_append_left [of "rev (dropWhile P (rev s))" "rev (takeWhile P (rev s))"] by simp
qed

lemma spaced_trim: "spaced s \<Longrightarrow> spaced (trim s)"
  unfolding trim_def by (intro spaced_rev_dropWhile_rev spaced_dropWhile)

lemma cleanText_eq: "cleanText s = trim (replace_runs isWhiteSpace SP s)"
proof -
  let ?t = "replace_runs isWhiteSpace SP s"
  have sp: "spaced ?t" by (rule spaced_replace_runs)
  have 1: "replace_blank_lines ?t = ?t"
    by (rule replace_blank_lines_id) (rule spaced_no_LF [OF sp])
  have 2: "replace_cr_tab ?t = ?t"
    by (rule replace_cr_tab_id) (rule spaced_no_CR [OF sp], rule spaced_no_TAB [OF sp])
  have 3: "replace_runs (\<lambda>c. isWhiteSpace c \<and> c \<noteq> LF) SP ?t = ?t"
    by (rule replace_runs_id [OF sp]) simp
  show ?thesis by (simp add: cleanText_def 1 2 3)
qed

lemma spaced_cleanText: "spaced (cleanText s)"
  by (simp add: cleanText_eq spaced_trim spaced_replace_runs)

lemma dropWhile_fix: "s = [] \<or> \<not> P (hd s) \<Longrightarrow> dropWhile P s = s"
  by (cases s) auto

lemma trim_trim: "trim (trim s) = trim s"
proof -
  let ?d = "dropWhile isWhiteSpace s"
  let ?e = "dropWhile isWhiteSpace (rev ?d)"
  have e: "dropWhile isWhiteSpace ?e = ?e" by (rule dropWhile_idem)
  have "rev ?e = [] \<or> \<not> isWhiteSpace (hd (rev ?e))"
  proof (cases "?e = []")
    case True
    then show ?thesis by simp
  next
    case False
    have d: "?d \<noteq> []"
    proof
      assume "?d = []"
      then have "?e = []" by (simp only: rev.simps(1) dropWhile.simps(1))
      with False show False by blast
    qed
    then have hd_d: "\<not> isWhiteSpace (hd ?d)" by (rule hd_dropWhile)
    have "rev (takeWhile isWhiteSpace (rev ?d) @ ?e) = ?d"
      by (simp only: takeWhile_dropWhile_id rev_rev_ident)
    then have split: "?d = rev ?e @ rev (takeWhile isWhiteSpace (rev ?d))"
      by (simp only: rev_append)
    have ne: "rev ?e \<noteq> []" using False by simp
    have "hd (rev ?e @ rev (takeWhile isWhiteSpace (rev ?d))) = hd (rev ?e)"
      using ne by (rule hd_append2)
    with split have "hd ?d = hd (rev ?e)" by simp
    with hd_d show ?thesis by simp
  qed
  then have "dropWhile isWhiteSpace (rev ?e) = rev ?e" by (rule dropWhile_fix)
  then show ?thesis unfolding trim_def by (simp add: e)
qed

lemma double_space_found: "\<not> no_double_space (ps @ SP # SP # ss)"
proof (induction ps)
  case Nil
  show ?case by simp
next
  case (Cons p ps)
  then show ?case by (cases ps) simp_all
qed

lemma double_space_exists:
  "\<not> no_double_space t \<Longrightarrow> \<exists>ps ss. t = ps @ SP # SP # ss"
proof (induction t rule: no_double_space.induct)
  case (1 a b cs)
  show ?case
  proof (cases "a = SP \<and> b = SP")
    case True
    then have "a # b # cs = [] @ SP # SP # cs" by simp
    then show ?thesis by blast
  next
    case False
    with 1 obtain ps ss where "b # cs = ps @ SP # SP # ss" by auto
    then have "a # b # cs = (a # ps) @ SP # SP # ss" by simp
    then show ?thesis by blast
  qed
qed simp_all

lemma no_double_space_iff:
  "no_double_space t \<longleftrightarrow> \<not> (\<exists>ps ss. t = ps @ [SP, SP] @ ss)"
  using double_space_found double_space_exists by fastforce

lemma spaced_Cons2:
  assumes "spaced (a # b # cs)"
  shows "spaced (b # cs)" and "\<not> (a = SP \<and> b = SP)"
proof -
  from assms have tl: "spaced (b # cs)"
    and hd: "isWhiteSpace a \<longrightarrow> a = SP \<and> (b # cs = [] \<or> \<not> isWhiteSpace (hd (b # cs)))"
    unfolding spaced.simps(2) [of a "b # cs"] by blast+
  show "spaced (b # cs)" by (rule tl)
  show "\<not> (a = SP \<and> b = SP)"
  proof
    assume ab: "a = SP \<and> b = SP"
    then have "isWhiteSpace a" and "isWhiteSpace b" by (simp_all only: isWhiteSpace_simps)
    with hd show False by (simp only: list.sel list.distinct) blast
  qed
qed

lemma spaced_no_double_space: "spaced t \<Longrightarrow> no_double_space t"
proof (induction t rule: no_double_space.induct)
  case (1 a b cs)
  from spaced_Cons2 [OF "1.prems"] "1.IH" show ?case
    unfolding no_double_space.simps(1) by blast
qed simp_all

section \<open>Removing elements: lemmas\<close>

lemma matches_removeIn [simp]: "matches sel (removeIn P n) = matches sel n"
  by (cases n; cases sel) simp_all

lemma removeIn_removeIn:
  "(\<And>m. P (removeIn Q m) = P m) \<Longrightarrow> removeIn P (removeIn Q n) = removeIn (\<lambda>m. Q m \<or> P m) n"
proof (induction n)
  case (Text s)
  show ?case by simp
next
  case (Element tag attrs cs)
  have "map (removeIn P) (filter (\<lambda>n. \<not> P n) (map (removeIn Q) (filter (\<lambda>n. \<not> Q n) cs)))
      = map (removeIn (\<lambda>m. Q m \<or> P m)) (filter (\<lambda>n. \<not> (Q n \<or> P n)) cs)"
    using Element by (induction cs) auto
  then show ?case by simp
qed

lemma removeIf_removeIf:
  assumes "\<And>m. P (removeIn Q m) = P m"
  shows "removeIf P (removeIf Q doc) = removeIf (\<lambda>m. Q m \<or> P m) doc"
  unfolding removeIf_def using assms removeIn_removeIn [of P Q]
  by (induction doc) auto

lemma removeIn_False: "removeIn (\<lambda>m. False) n = n"
  by (induction n) (simp_all add: map_idI)

lemma removeIf_False: "removeIf (\<lambda>m. False) doc = doc"
  by (simp add: removeIf_def removeIn_False map_idI)

lemma fold_remove:
  "fold remove sels (removeIf Q doc) = removeIf (\<lambda>m. Q m \<or> list_ex (\<lambda>sel. matches sel m) sels) doc"
proof (induction sels arbitrary: Q)
  case Nil
  show ?case by simp
next
  case (Cons sel sels)
  have "remove sel (removeIf Q doc) = removeIf (\<lambda>m. Q m \<or> matches sel m) doc"
    unfolding remove_def by (rule removeIf_removeIf) simp
  then show ?case by (simp add: Cons disj_assoc)
qed

lemma remove_unwanted_eq: "remove_unwanted doc = removeIf is_noise doc"
proof -
  have "fold remove noise_selectors (removeIf (\<lambda>m. False) doc)
      = removeIf (\<lambda>m. False \<or> list_ex (\<lambda>sel. matches sel m) noise_selectors) doc"
    by (rule fold_remove)
  then show ?thesis by (simp add: remove_unwanted_def removeIf_False is_noise_def [abs_def])
qed


lemma is_noise_removeIn [simp]: "is_noise (removeIn P m) = is_noise m"
  by (simp add: is_noise_def)






text \<open>
  Before \<open>cleanText\<close> the title is never empty: each alternative of the fallback is
  taken only when it is not the empty string.
\<close>

lemma extract_title_nonempty: "extract_title doc \<noteq> []"
  by (simp add: extract_title_def Let_def js_def split: option.splits)

lemma clean_cleanText: "clean (cleanText s)"
  unfolding clean_def
  using spaced_no_TAB [OF spaced_cleanText] spaced_no_CR [OF spaced_cleanText]
    spaced_no_double_space [OF spaced_cleanText]
  by blast

lemma trim_cleanText: "trim (cleanText s) = cleanText s"
  by (simp add: cleanText_eq trim_trim)

lemma crawlWebsite_result:
  "crawlWebsite get u = Inr r \<Longrightarrow> \<exists>v d. get v = Inr d \<and> r = structure_content v d"
  by (auto simp: crawlWebsite_def Let_def split: if_splits sum.splits)

section \<open>Evaluation on the concrete pages\<close>

lemmas eval_noise = removeIf_def is_noise_def noise_selectors_def
lemmas eval_string = trim_def isWhiteSpace_def js_def
lemmas eval_cleanText = cleanText_def replace_cr_tab_def after_last_LF_def eval_string

lemma structure_content_fields:
  "title (structure_content v d) = cleanText (extract_title (removeIf is_noise d))"
  "description (structure_content v d) = map_option cleanText (extract_description (removeIf is_noise d))"
  "h1 (headings (structure_content v d)) = map cleanText (extract_headings ''h1'' (removeIf is_noise d))"
  "h2 (headings (structure_content v d)) = map cleanText (extract_headings ''h2'' (removeIf is_noise d))"
  "paragraphs (structure_content v d) = map cleanText (extract_paragraphs (removeIf is_noise d))"
  "cleanedText (structure_content v d) = cleanText (extract_mainContent (removeIf is_noise d))"
  by (simp_all add: structure_content_def Let_def remove_unwanted_eq extract_description_def)

lemma scenario_stripped: "removeIf is_noise (page_scenario s) = page_scenario_stripped"
  by (simp add: eval_noise page_scenario_def page_scenario_stripped_def)

lemma scenario_clean4:
  "cleanText (js ''HThis paragraph is definitely long enough.'')
     = js ''HThis paragraph is definitely long enough.''"
  by (simp add: eval_cleanText)

lemma scenario_title: "extract_title page_scenario_stripped = js ''T''"
  by (simp add: page_scenario_stripped_def extract_title_def selectAll_def text_of_def eval_string)

lemma scenario_h1: "extract_headings ''h1'' page_scenario_stripped = [js ''H'']"
  by (simp add: page_scenario_stripped_def extract_headings_def selectAll_def eval_string)

lemma scenario_paragraphs:
  "extract_paragraphs page_scenario_stripped = [js ''This paragraph is definitely long enough.'']"
  by (simp add: page_scenario_stripped_def extract_paragraphs_def selectAll_def eval_string)

lemma scenario_mainContent:
  "extract_mainContent page_scenario_stripped = js ''HThis paragraph is definitely long enough.''"
  by (simp add: page_scenario_stripped_def extract_mainContent_def selectAll_def text_of_def js_def)

lemma scenario_clean1: "cleanText (js ''T'') = js ''T''"
  by (simp add: eval_cleanText)

lemma scenario_clean2: "cleanText (js ''H'') = js ''H''"
  by (simp add: eval_cleanText)

lemma scenario_clean3:
  "cleanText (js ''This paragraph is definitely long enough.'')
     = js ''This paragraph is definitely long enough.''"
  by (simp add: eval_cleanText)

lemma scenario_no_x: "0x78 \<notin> set (js ''HThis paragraph is definitely long enough.'')"
  by (simp add: js_def)

lemma scenario_result:
  "title (structure_content v (page_scenario (js ''x''))) = js ''T'' \<and>
   h1 (headings (structure_content v (page_scenario (js ''x'')))) = [js ''H''] \<and>
   paragraphs (structure_content v (page_scenario (js ''x'')))
     = [js ''This paragraph is definitely long enough.''] \<and>
   cleanedText (structure_content v (page_scenario (js ''x'')))
     = js ''HThis paragraph is definitely long enough.'' \<and>
   0x78 \<notin> set (cleanedText (structure_content v (page_scenario (js ''x''))))"
  by (simp only: structure_content_fields scenario_stripped scenario_title scenario_h1
      scenario_paragraphs scenario_mainContent scenario_clean1 scenario_clean2 scenario_clean3
      scenario_clean4 scenario_no_x list.map simp_thms)

lemma spaced_stripped: "removeIf is_noise page_spaced_paragraph = page_spaced_paragraph"
  by (simp add: eval_noise page_spaced_paragraph_def)

lemma spaced_p_select:
  "selectAll (Tag ''p'') page_spaced_paragraph
     = [Element ''p'' [] [Text (js ''a                    b'')]]"
  by (simp add: page_spaced_paragraph_def selectAll_def)

lemma spaced_p_trim: "trim (js ''a                    b'') = js ''a                    b''"
  by (simp add: eval_string)

lemma spaced_p_length: "20 < length (js ''a                    b'')"
  by (simp add: js_def)

lemma spaced_p_clean: "cleanText (js ''a                    b'') = js ''a b''"
  by (simp add: eval_cleanText)

lemma spaced_extract_paragraphs:
  "extract_paragraphs page_spaced_paragraph = [js ''a                    b'']"
  using spaced_p_length
  by (auto simp add: extract_paragraphs_def spaced_p_select spaced_p_trim)

lemma spaced_paragraphs:
  "paragraphs (structure_content v page_spaced_paragraph) = [js ''a b'']"
  by (simp only: structure_content_fields spaced_stripped spaced_extract_paragraphs
      spaced_p_clean list.map)

lemma short_length: "\<not> 20 < length (js ''a b'')"
  by (simp add: js_def)

lemma short_trim: "trim (js ''a b'') = js ''a b''"
  by (simp add: eval_string)

lemma spaced_title: "cleanText (extract_title page_spaced_paragraph) = js ''T''"
  by (simp add: page_spaced_paragraph_def extract_title_def selectAll_def text_of_def eval_cleanText)

lemma spaced_description:
  "map_option cleanText (extract_description page_spaced_paragraph) = Some (js ''D d'')"
  by (simp add: page_spaced_paragraph_def extract_description_def selectAll_def eval_cleanText)

lemma spaced_h2: "map cleanText (extract_headings ''h2'' page_spaced_paragraph) = [js ''H h'']"
  by (simp add: page_spaced_paragraph_def extract_headings_def selectAll_def eval_cleanText)

lemma spaced_cleanedText:
  "cleanText (extract_mainContent page_spaced_paragraph) = js ''H ha b''"
  by (simp add: page_spaced_paragraph_def extract_mainContent_def selectAll_def text_of_def
      eval_cleanText)

lemma spaced_fields:
  "cleanedText (structure_content v page_spaced_paragraph) = js ''H ha b''"
  "title (structure_content v page_spaced_paragraph) = js ''T''"
  "description (structure_content v page_spaced_paragraph) = Some (js ''D d'')"
  "h2 (headings (structure_content v page_spaced_paragraph)) = [js ''H h'']"
  by (simp_all only: structure_content_fields spaced_stripped spaced_title spaced_description
      spaced_h2 spaced_cleanedText)

lemma blank_og_stripped: "removeIf is_noise page_blank_og_title = page_blank_og_title"
  by (simp add: eval_noise page_blank_og_title_def)

lemma blank_og_extract_title: "extract_title page_blank_og_title = js '' ''"
  by (simp add: page_blank_og_title_def extract_title_def selectAll_def text_of_def first_def
      eval_string)

lemma blank_clean: "cleanText (js '' '') = []"
  by (simp add: eval_cleanText)

section \<open>Extractor: the claims\<close>

text \<open>
  C9. Whitespace normalization is idempotent: for every string \<open>s\<close>,
  \<open>cleanText(cleanText(s)) = cleanText(s)\<close>.
\<close>

theorem cleanText_idempotent: "cleanText (cleanText s) = cleanText s"
proof -
  have "spaced (cleanText s)" by (rule spaced_cleanText)
  then have "replace_runs isWhiteSpace SP (cleanText s) = cleanText s"
    by (rule replace_runs_id)
  then have "cleanText (cleanText s) = trim (cleanText s)"
    by (simp add: cleanText_eq [of "cleanText s"])
  also have "\<dots> = cleanText s"
    by (simp add: cleanText_eq trim_trim)
  finally show ?thesis .
qed

text \<open>
  C6. In every extraction result, \<open>cleanedText\<close> has no tab, no carriage return and
  no two adjacent spaces (\<open>clean\<close>); the title, the description when there is one, every
  heading of every level and every paragraph went through \<open>cleanText\<close> too and are
  \<open>clean\<close> as well.
\<close>

theorem output_fields_clean:
  "clean (cleanedText (structure_content v d)) \<and>
   clean (title (structure_content v d)) \<and>
   (\<forall>x. description (structure_content v d) = Some x \<longrightarrow> clean x) \<and>
   (\<forall>x \<in> set (h1 (headings (structure_content v d))) \<union> set (h2 (headings (structure_content v d)))
        \<union> set (h3 (headings (structure_content v d))) \<union> set (h4 (headings (structure_content v d)))
        \<union> set (h5 (headings (structure_content v d))) \<union> set (h6 (headings (structure_content v d))).
      clean x) \<and>
   (\<forall>x \<in> set (paragraphs (structure_content v d)). clean x)"
proof -
  have "clean (cleanedText (structure_content v d))"
    by (simp add: structure_content_def Let_def clean_cleanText)
  moreover have "clean (title (structure_content v d))"
    by (simp add: structure_content_def Let_def clean_cleanText)
  moreover have "\<forall>x. description (structure_content v d) = Some x \<longrightarrow> clean x"
    by (auto simp: structure_content_def Let_def clean_cleanText split: if_splits)
  moreover have "\<forall>x \<in> set (h1 (headings (structure_content v d))) \<union> set (h2 (headings (structure_content v d)))
        \<union> set (h3 (headings (structure_content v d))) \<union> set (h4 (headings (structure_content v d)))
        \<union> set (h5 (headings (structure_content v d))) \<union> set (h6 (headings (structure_content v d))).
      clean x"
    by (auto simp: structure_content_def Let_def clean_cleanText)
  moreover have "\<forall>x \<in> set (paragraphs (structure_content v d)). clean x"
    by (auto simp: structure_content_def Let_def clean_cleanText)
  ultimately show ?thesis by blast
qed

theorem output_fields_clean_witness:
  "cleanedText (structure_content (js ''u'') page_spaced_paragraph) = js ''H ha b'' \<and>
   clean (js ''H ha b'') \<and>
   title (structure_content (js ''u'') page_spaced_paragraph) = js ''T'' \<and> clean (js ''T'') \<and>
   description (structure_content (js ''u'') page_spaced_paragraph) = Some (js ''D d'') \<and>
   clean (js ''D d'') \<and>
   h2 (headings (structure_content (js ''u'') page_spaced_paragraph)) = [js ''H h''] \<and>
   clean (js ''H h'') \<and>
   paragraphs (structure_content (js ''u'') page_spaced_paragraph) = [js ''a b''] \<and>
   clean (js ''a b'')"
  using output_fields_clean [of "js ''u''" page_spaced_paragraph]
  by (simp add: spaced_fields spaced_paragraphs)

text \<open>
  C7 as stated fails: a paragraph of \<open>a\<close>, twenty spaces and \<open>b\<close> has a trimmed length
  of 22, is kept, and is returned as \<open>a b\<close>, whose length is 3.
\<close>

theorem short_paragraph_counterexample:
  "paragraphs (structure_content (js ''u'') page_spaced_paragraph) = [js ''a b''] \<and>
   \<not> 20 < length (js ''a b'')"
  by (simp only: spaced_paragraphs short_length simp_thms)

text \<open>
  C7, as amended. The test \<open>length > 20\<close> is made on the trimmed text of the paragraph
  element, before \<open>cleanText\<close>: every paragraph of the result is \<open>cleanText\<close> of the
  trimmed text of a \<open>p\<close> element left after the removal of noise, that trimmed text is
  longer than 20 code units, and the paragraph itself is trimmed. Conversely every such
  \<open>p\<close> element whose trimmed text is longer than 20 code units gives a paragraph.
\<close>

theorem paragraphs_kept_by_trimmed_length:
  "(\<forall>q \<in> set (paragraphs (structure_content v d)).
      trim q = q \<and>
      (\<exists>e \<in> set (selectAll (Tag ''p'') (remove_unwanted d)).
         q = cleanText (trim (textContent e)) \<and> 20 < length (trim (textContent e)))) \<and>
   (\<forall>e \<in> set (selectAll (Tag ''p'') (remove_unwanted d)).
      20 < length (trim (textContent e)) \<longrightarrow>
        cleanText (trim (textContent e)) \<in> set (paragraphs (structure_content v d)))"
proof -
  let ?ps = "map (\<lambda>element. trim (textContent element)) (selectAll (Tag ''p'') (remove_unwanted d))"
  have kept: "paragraphs (structure_content v d)
      = map cleanText (filter (\<lambda>text. text \<noteq> [] \<and> length text > 20) ?ps)"
    by (simp add: structure_content_def Let_def extract_paragraphs_def)
  show ?thesis
  proof (intro conjI ballI impI)
    fix q assume "q \<in> set (paragraphs (structure_content v d))"
    then obtain t where t: "t \<in> set ?ps" "20 < length t" "q = cleanText t"
      unfolding kept by auto
    from t(3) show "trim q = q" by (simp add: trim_cleanText)
    from t obtain e where "e \<in> set (selectAll (Tag ''p'') (remove_unwanted d))"
      "t = trim (textContent e)" by auto
    with t show "\<exists>e \<in> set (selectAll (Tag ''p'') (remove_unwanted d)).
         q = cleanText (trim (textContent e)) \<and> 20 < length (trim (textContent e))"
      by blast
  next
    fix e assume e: "e \<in> set (selectAll (Tag ''p'') (remove_unwanted d))"
      and long: "20 < length (trim (textContent e))"
    from e have "trim (textContent e) \<in> set ?ps" by simp
    moreover from long have "trim (textContent e) \<noteq> []" by auto
    ultimately show "cleanText (trim (textContent e)) \<in> set (paragraphs (structure_content v d))"
      unfolding kept using long by simp
  qed
qed

theorem paragraphs_kept_witness:
  "paragraphs (structure_content (js ''u'') page_spaced_paragraph) = [js ''a b''] \<and>
   trim (js ''a b'') = js ''a b'' \<and>
   selectAll (Tag ''p'') (remove_unwanted page_spaced_paragraph)
     = [Element ''p'' [] [Text (js ''a                    b'')]] \<and>
   js ''a b'' = cleanText (trim (textContent (Element ''p'' [] [Text (js ''a                    b'')]))) \<and>
   20 < length (trim (textContent (Element ''p'' [] [Text (js ''a                    b'')])))"
  using paragraphs_kept_by_trimmed_length [of "js ''u''" page_spaced_paragraph, THEN conjunct1]
    spaced_p_length
  by (simp add: spaced_paragraphs remove_unwanted_eq spaced_stripped spaced_p_select spaced_p_trim
      spaced_p_clean short_trim)



text \<open>
  C8. The fallback is title element, first \<open>h1\<close>, \<open>og:title\<close>, \<open>Untitled\<close>, and
  it never gives the empty string (\<open>extract_title_nonempty\<close>). But the \<open>og:title\<close>
  attribute is not trimmed before the test, unlike the two texts before it, and the
  title of the result is \<open>cleanText\<close> of the fallback's: a page with no title, no
  \<open>h1\<close> and an \<open>og:title\<close> of one space gets the empty title.
\<close>

theorem blank_og_title_gives_empty_title:
  "title (structure_content (js ''u'') page_blank_og_title) = []"
  by (simp only: structure_content_fields blank_og_stripped blank_og_extract_title blank_clean)


section \<open>The requested count, validation and count reconciliation: lemmas\<close>

lemma faqCount_Finite:
  "faqCount (Some (Finite r)) = Finite (of_int (min (max \<lfloor>r\<rfloor> 5) 10))"
proof (cases "\<lfloor>r\<rfloor> = 0")
  case True
  then show ?thesis by (simp add: faqCount_def DEFAULT_FAQ_COUNT_def)
next
  case False
  then have "(of_int \<lfloor>r\<rfloor> :: real) \<noteq> 0" by simp
  then show ?thesis
    by (simp add: faqCount_def DEFAULT_FAQ_COUNT_def min_def max_def)
qed

lemma faqCount_other:
  "faqCount None = Finite 5" "faqCount (Some NaN) = Finite 5"
  "faqCount (Some PosInfinity) = Finite 10" "faqCount (Some NegInfinity) = Finite 5"
  by (simp_all add: faqCount_def DEFAULT_FAQ_COUNT_def)

lemma faqCount_range:
  "\<exists>n. faqCount count = Finite (real n) \<and> count_of (faqCount count) = n \<and> 5 \<le> n \<and> n \<le> 10"
proof (cases count)
  case None
  have "Finite 5 = Finite (real 5)" by simp
  then show ?thesis unfolding None faqCount_other by (intro exI [of _ 5]) simp
next
  case (Some c)
  show ?thesis
  proof (cases c)
    case (Finite r)
    let ?k = "min (max \<lfloor>r\<rfloor> 5) 10"
    have k: "5 \<le> ?k" "?k \<le> 10" by simp_all
    then have "real_of_int ?k = real (nat ?k)" by simp
    moreover have "count_of (Finite (of_int ?k)) = nat ?k" by simp
    moreover have "5 \<le> nat ?k" "nat ?k \<le> 10" using k by linarith+
    ultimately show ?thesis unfolding Some Finite faqCount_Finite by metis
  next
    case NaN
    show ?thesis unfolding Some NaN faqCount_other by (intro exI [of _ 5]) simp
  next
    case PosInfinity
    show ?thesis unfolding Some PosInfinity faqCount_other by (intro exI [of _ 10]) simp
  next
    case NegInfinity
    show ?thesis unfolding Some NegInfinity faqCount_other by (intro exI [of _ 5]) simp
  qed
qed

lemma valid_faq_strings:
  assumes "valid_faq faq"
  obtains properties q a where "faq = JObject properties"
    and "map_of properties (js ''question'') = Some (JString q)"
    and "map_of properties (js ''answer'') = Some (JString a)"
    and "trim q \<noteq> []" and "trim a \<noteq> []"
proof -
  from assms obtain properties where faq: "faq = JObject properties"
    by (cases faq) (simp_all add: valid_faq_def)
  from assms obtain q where q: "map_of properties (js ''question'') = Some (JString q)" "trim q \<noteq> []"
    unfolding valid_faq_def faq by (auto elim: nonblank_string.elims)
  from assms obtain a where a: "map_of properties (js ''answer'') = Some (JString a)" "trim a \<noteq> []"
    unfolding valid_faq_def faq by (auto elim: nonblank_string.elims)
  from faq q a that show thesis by blast
qed

lemma trim_faq_properties:
  assumes "valid_faq faq"
  shows "\<exists>q a. property faq (js ''question'') = Some (JString q) \<and>
           property faq (js ''answer'') = Some (JString a) \<and>
           property (trim_faq faq) (js ''question'') = Some (JString (trim q)) \<and>
           property (trim_faq faq) (js ''answer'') = Some (JString (trim a)) \<and>
           trim q \<noteq> [] \<and> trim a \<noteq> [] \<and>
           (\<forall>k. k \<noteq> js ''question'' \<and> k \<noteq> js ''answer'' \<longrightarrow>
              property (trim_faq faq) k = property faq k)"
proof -
  from assms obtain properties q a where faq: "faq = JObject properties"
    and q: "map_of properties (js ''question'') = Some (JString q)"
    and a: "map_of properties (js ''answer'') = Some (JString a)"
    and ne: "trim q \<noteq> []" "trim a \<noteq> []"
    by (rule valid_faq_strings)
  have keys: "js ''question'' \<noteq> js ''answer''" by (simp add: js_def)
  have trimmed: "trim_faq faq = JObject (AList.update (js ''answer'') (JString (trim a))
      (AList.update (js ''question'') (JString (trim q)) properties))"
    using keys by (simp add: trim_faq_def faq q a update_conv')
  show ?thesis
    unfolding trimmed using keys ne by (simp add: faq q a update_conv')
qed

lemma validate_from_valid:
  "list_all valid_faq faqs \<Longrightarrow> validate_from i faqs = Inr (map trim_faq faqs)"
  by (induction faqs arbitrary: i) (simp_all add: valid_faq_def)

lemma validate_from_invalid:
  "list_all valid_faq pre \<Longrightarrow> \<not> valid_faq bad \<Longrightarrow>
   validate_from i (pre @ bad # post) = Inl (JsError (validation_msg (i + length pre) bad))"
proof (induction pre arbitrary: i)
  case Nil
  then show ?case by (auto simp: valid_faq_def validation_msg_def)
next
  case (Cons faq pre)
  then have "validate_from (Suc i) (pre @ bad # post)
      = Inl (JsError (validation_msg (Suc i + length pre) bad))"
    by simp
  moreover have "valid_faq faq" using Cons.prems by simp
  ultimately show ?case by (simp add: valid_faq_def)
qed

lemma validate_from_Inr:
  "validate_from i faqs = Inr out \<Longrightarrow> list_all valid_faq faqs \<and> out = map trim_faq faqs"
proof (induction faqs arbitrary: i out)
  case Nil
  then show ?case by simp
next
  case (Cons faq faqs)
  then show ?case
    by (auto simp: valid_faq_def split: if_splits sum.splits)
qed

lemma check_faqs_length: "check_faqs n faqs = Inr out \<Longrightarrow> length out = n"
  by (auto simp: check_faqs_def split: if_splits sum.splits)

lemma check_faqs_more:
  "list_all valid_faq faqs \<Longrightarrow> n < length faqs \<Longrightarrow>
   check_faqs n faqs = Inr (take n (map trim_faq faqs))"
  by (auto simp: check_faqs_def validate_from_valid)

lemma check_faqs_fewer:
  "list_all valid_faq faqs \<Longrightarrow> faqs \<noteq> [] \<Longrightarrow> length faqs < n \<Longrightarrow>
   check_faqs n faqs = Inl (JsError (FailedToGenerateExactly n (length faqs)))"
  by (auto simp: check_faqs_def validate_from_valid)

lemma check_faqs_equal:
  "list_all valid_faq faqs \<Longrightarrow> faqs \<noteq> [] \<Longrightarrow> length faqs = n \<Longrightarrow>
   check_faqs n faqs = Inr (map trim_faq faqs)"
  by (auto simp: check_faqs_def validate_from_valid)

lemma check_faqs_invalid:
  "list_all valid_faq pre \<Longrightarrow> \<not> valid_faq bad \<Longrightarrow>
   check_faqs n (pre @ bad # post) = Inl (JsError (validation_msg (length pre) bad))"
  using validate_from_invalid [of pre bad 0 post] by (simp add: check_faqs_def)

lemma generateFaqs_decoded:
  assumes "truthy (OPENAI_API_KEY env)" and "trim text \<noteq> []"
    and "makeOpenAIRequest (openai (make_prompt text count)) 2 = (Inr completion, events)"
    and "parseFaqResponse P completion = Inr items"
  shows "generateFaqs P env openai text count =
    (case check_faqs (count_of (faqCount count)) items of
       Inl error \<Rightarrow> Inl (generateFaqs_catch error) | Inr faqs \<Rightarrow> Inr faqs, events)"
proof -
  have "text \<noteq> []" using assms(2) by (auto simp: trim_def)
  with assms show ?thesis
    by (simp add: generateFaqs_def generateFaqs_try_def Let_def split: sum.splits)
qed

lemma generateFaqs_success_length:
  "generateFaqs P env openai text count = (Inr faqs, events) \<Longrightarrow>
   length faqs = count_of (faqCount count)"
  by (auto simp: generateFaqs_def generateFaqs_try_def Let_def check_faqs_length
      split: if_splits sum.splits prod.splits)

section \<open>The retry loop: lemmas\<close>

declare makeOpenAIRequest_loop.simps [simp del]

lemma loop_stop:
  assumes "k \<le> retries" and "outcome_at create retries k = Some r"
  shows "makeOpenAIRequest_loop create retries k lastError = (r, [Create k])"
proof (cases "create k")
  case (Inr c)
  with assms show ?thesis
    by (simp add: makeOpenAIRequest_loop.simps [of create retries k] outcome_at_def)
next
  case (Inl e)
  show ?thesis
  proof (cases "client_error e")
    case True
    with Inl assms show ?thesis
      by (simp add: makeOpenAIRequest_loop.simps [of create retries k] outcome_at_def)
  next
    case False
    with Inl assms have k: "k = retries" and r: "r = Inl (ApiError e)"
      by (auto simp: outcome_at_def split: if_splits)
    have next_attempt:
      "makeOpenAIRequest_loop create retries (Suc retries) (ApiError e) = (Inl (ApiError e), [])"
      by (subst makeOpenAIRequest_loop.simps) simp
    have "makeOpenAIRequest_loop create retries retries lastError = (Inl (ApiError e), [Create retries])"
      using Inl False k by (subst makeOpenAIRequest_loop.simps) (simp add: next_attempt)
    with k r show ?thesis by simp
  qed
qed

lemma loop_continue:
  assumes "a < retries" and "outcome_at create retries a = None"
  shows "\<exists>e. makeOpenAIRequest_loop create retries a lastError =
    (let (result, events) = makeOpenAIRequest_loop create retries (a + 1) (ApiError e)
     in (result, Create a # Sleep (2 ^ a * 1000) # events))"
proof -
  from assms(2) obtain e where e: "create a = Inl e" "\<not> client_error e"
    by (auto simp: outcome_at_def split: sum.splits if_splits)
  with assms(1) have "makeOpenAIRequest_loop create retries a lastError =
    (let (result, events) = makeOpenAIRequest_loop create retries (a + 1) (ApiError e)
     in (result, Create a # Sleep (2 ^ a * 1000) # events))"
    by (simp add: makeOpenAIRequest_loop.simps [of create retries a] Let_def)
  then show ?thesis by blast
qed

lemma loop_run:
  assumes "k \<le> retries" and "a \<le> k"
    and "\<forall>j. a \<le> j \<and> j < k \<longrightarrow> outcome_at create retries j = None"
    and "outcome_at create retries k = Some r"
  shows "makeOpenAIRequest_loop create retries a lastError = (r, events_from a k)"
  using assms(2,3)
proof (induction "k - a" arbitrary: a lastError)
  case 0
  then have "a = k" by simp
  with loop_stop [OF assms(1,4)] show ?case by (simp add: events_from_def)
next
  case (Suc d)
  then have lt: "a < k" by simp
  then have none: "outcome_at create retries a = None" using Suc.prems by simp
  from lt assms(1) have "a < retries" by simp
  from loop_continue [OF this none] obtain e where
    step: "makeOpenAIRequest_loop create retries a lastError =
      (let (result, events) = makeOpenAIRequest_loop create retries (a + 1) (ApiError e)
       in (result, Create a # Sleep (2 ^ a * 1000) # events))"
    by blast
  have "makeOpenAIRequest_loop create retries (a + 1) (ApiError e) = (r, events_from (a + 1) k)"
  proof (rule Suc.hyps(1))
    show "d = k - (a + 1)" using Suc.hyps(2) by simp
    show "a + 1 \<le> k" using lt by simp
    show "\<forall>j. a + 1 \<le> j \<and> j < k \<longrightarrow> outcome_at create retries j = None"
      using Suc.prems by simp
  qed
  moreover have "events_from a k = Create a # Sleep (2 ^ a * 1000) # events_from (a + 1) k"
    using lt by (simp add: events_from_def upt_conv_Cons)
  ultimately show ?case using step by simp
qed

lemma events_until_eq: "events_until k = events_from 0 k"
  by (simp add: events_until_def events_from_def)

lemma makeOpenAIRequest_run:
  assumes "k \<le> retries"
    and "\<forall>j < k. outcome_at create retries j = None"
    and "outcome_at create retries k = Some r"
  shows "makeOpenAIRequest create retries = (r, events_until k)"
  unfolding makeOpenAIRequest_def events_until_eq
  using assms by (intro loop_run) simp_all

lemma events_until_2:
  "events_until 0 = [Create 0]"
  "events_until 1 = [Create 0, Sleep 1000, Create 1]"
  "events_until 2 = [Create 0, Sleep 1000, Create 1, Sleep 2000, Create 2]"
  by (simp_all add: events_until_def upt_rec numeral_2_eq_2)

section \<open>Parsing the response: lemmas\<close>

lemma direct_decode_object:
  "P s = Some (JObject properties) \<Longrightarrow> map_of properties (js ''faqs'') = Some (JArray faqs) \<Longrightarrow>
   direct_decode P s = Some faqs"
  by (simp add: direct_decode_def)


lemma parseFaqResponse_direct:
  "content \<noteq> [] \<Longrightarrow> direct_decode P (strip_fences content) = Some faqs \<Longrightarrow>
   parseFaqResponse P (Some content # choices) = Inr faqs"
  by (simp add: parseFaqResponse_def)




lemma trim_id: "s \<noteq> [] \<Longrightarrow> \<not> isWhiteSpace (hd s) \<Longrightarrow> \<not> isWhiteSpace (last s) \<Longrightarrow> trim s = s"
proof -
  assume s: "s \<noteq> []" and h: "\<not> isWhiteSpace (hd s)" and l: "\<not> isWhiteSpace (last s)"
  have 1: "dropWhile isWhiteSpace s = s" using h by (intro dropWhile_fix) simp
  have "hd (rev s) = last s" using s by (simp add: hd_rev)
  then have 2: "dropWhile isWhiteSpace (rev s) = rev s" using l by (intro dropWhile_fix) simp
  show ?thesis by (simp add: trim_def 1 2)
qed

lemma prefix_before:
  "prefix fence (xs @ sep # ys) \<Longrightarrow> sep \<notin> set fence \<Longrightarrow> prefix fence xs"
  by (auto simp: prefix_append prefix_Cons)

lemma remove_fence_absent: "\<not> sublist fence s \<Longrightarrow> remove_fence fence s = s"
proof (induction s)
  case Nil
  show ?case by simp
next
  case (Cons c cs)
  then have "\<not> prefix fence (c # cs)" and "\<not> sublist fence cs"
    by (simp_all add: sublist_Cons_right)
  with Cons.IH show ?case by simp
qed

lemma remove_fence_before:
  assumes "fence \<noteq> []" and "\<not> sublist fence xs" and "sep \<notin> set fence"
  shows "remove_fence fence (xs @ sep # ys) = xs @ sep # remove_fence fence ys"
  using assms(2)
proof (induction xs)
  case Nil
  have "\<not> prefix fence (sep # ys)"
    using assms(1,3) by (cases fence) auto
  then show ?case by simp
next
  case (Cons x xs)
  then have no: "\<not> prefix fence (x # xs)" and rest: "\<not> sublist fence xs"
    by (simp_all add: sublist_Cons_right)
  have "\<not> prefix fence ((x # xs) @ sep # ys)"
    using no prefix_before [OF _ assms(3)] by blast
  with Cons.IH [OF rest] show ?case by simp
qed

lemma sublist_trim: "sublist (trim s) s"
proof -
  have "prefix (trim s) (dropWhile isWhiteSpace s)"
    unfolding trim_def
    by (metis rev_rev_ident suffix_dropWhile suffix_to_prefix)
  then have "sublist (trim s) (dropWhile isWhiteSpace s)" by (rule prefix_imp_sublist)
  moreover have "sublist (dropWhile isWhiteSpace s) s"
    by (rule suffix_imp_sublist) (rule suffix_dropWhile)
  ultimately show ?thesis by (rule sublist_order.order_trans)
qed

lemma fence_in_json_fence: "sublist (js ''```'') (js ''```json'')"
  by (rule prefix_imp_sublist) (simp add: js_def)

lemma no_backtick_no_fence: "BACKTICK \<notin> set s \<Longrightarrow> \<not> sublist (js ''```'') s"
  using set_mono_sublist [of "js ''```''" s] by (auto simp: js_def)

lemma strip_fences_no_fence:
  assumes "\<not> sublist (js ''```'') s"
  shows "strip_fences s = trim s"
proof -
  have 1: "\<not> sublist (js ''```'') (trim s)"
    using assms sublist_trim [of s] sublist_order.order_trans by blast
  then have 2: "\<not> sublist (js ''```json'') (trim s)"
    using fence_in_json_fence sublist_order.order_trans by blast
  show ?thesis
    by (simp only: strip_fences_def remove_fence_absent [OF 2] remove_fence_absent [OF 1] trim_trim)
qed

lemma trim_append_LF: "trim (dropWhile isWhiteSpace s @ [LF]) = trim s"
proof (cases "dropWhile isWhiteSpace s = []")
  case True
  show ?thesis unfolding trim_def True by simp
next
  case False
  then have "\<not> isWhiteSpace (hd (dropWhile isWhiteSpace s))"
    using dropWhile_hd [of isWhiteSpace s] by blast
  with False have "dropWhile isWhiteSpace (dropWhile isWhiteSpace s @ [LF])
      = dropWhile isWhiteSpace s @ [LF]"
    by (intro dropWhile_fix) simp
  then show ?thesis by (simp add: trim_def)
qed

lemma strip_fences_fenced:
  assumes "\<not> sublist (js ''```'') body"
  shows "strip_fences (js ''```json'' @ [LF] @ body @ [LF] @ js ''```'') = trim body"
proof -
  let ?content = "js ''```json'' @ [LF] @ body @ [LF] @ js ''```''"
  let ?b = "dropWhile isWhiteSpace body"
  have c: "trim ?content = ?content"
    by (rule trim_id) (simp_all add: js_def isWhiteSpace_def)
  have open_fence: "remove_fence (js ''```json'') ?content
      = remove_fence (js ''```json'') (dropWhile isWhiteSpace (body @ LF # js ''```''))"
    by (simp add: js_def)
  have 2: "remove_fence (js ''```json'') (js ''```'') = js ''```''" by (simp add: js_def)
  have 4: "remove_fence (js ''```'') (js ''```'') = []" by (simp add: js_def)
  show ?thesis
  proof (cases "?b = []")
    case True
    then have "\<forall>c\<in>set body. isWhiteSpace c" by (simp add: dropWhile_eq_Nil_conv)
    then have "dropWhile isWhiteSpace (body @ LF # js ''```'')
        = dropWhile isWhiteSpace (LF # js ''```'')"
      by (simp add: dropWhile_append2)
    also have "\<dots> = js ''```''" by (simp add: js_def isWhiteSpace_def)
    finally have rest: "dropWhile isWhiteSpace (body @ LF # js ''```'') = js ''```''" .
    have "strip_fences ?content = trim []"
      by (simp only: strip_fences_def c open_fence rest 2 4)
    also have "\<dots> = trim body" unfolding trim_def True by simp
    finally show ?thesis .
  next
    case False
    then obtain x where "x \<in> set body" "\<not> isWhiteSpace x"
      by (auto simp: dropWhile_eq_Nil_conv)
    then have rest: "dropWhile isWhiteSpace (body @ LF # js ''```'') = ?b @ LF # js ''```''"
      by (rule dropWhile_append1)
    have b3: "\<not> sublist (js ''```'') ?b"
      using assms suffix_imp_sublist [OF suffix_dropWhile, of isWhiteSpace body]
        sublist_order.order_trans by blast
    then have b7: "\<not> sublist (js ''```json'') ?b"
      using fence_in_json_fence sublist_order.order_trans by blast
    have 1: "remove_fence (js ''```json'') (?b @ LF # js ''```'')
        = ?b @ LF # remove_fence (js ''```json'') (js ''```'')"
      using b7 by (intro remove_fence_before) (simp_all add: js_def)
    have 3: "remove_fence (js ''```'') (?b @ LF # js ''```'')
        = ?b @ LF # remove_fence (js ''```'') (js ''```'')"
      using b3 by (intro remove_fence_before) (simp_all add: js_def)
    have "strip_fences ?content = trim (?b @ [LF])"
      by (simp only: strip_fences_def c open_fence rest 1 2 3 4)
    then show ?thesis by (simp only: trim_append_LF)
  qed
qed








section \<open>Evaluation on the concrete responses\<close>

lemma strip_fences_plain:
  assumes "trim s = s" and "BACKTICK \<notin> set s"
  shows "strip_fences s = s"
  using strip_fences_no_fence [OF no_backtick_no_fence, OF assms(2)] assms(1) by simp

lemma fenced_text: "js (fenced body) = js ''```json'' @ [LF] @ js body @ [LF] @ js ''```''"
  by (simp add: fenced_def js_def)

lemma js_append: "js (a @ b) = js a @ js b"
  by (simp add: js_def)

lemma five_text_shape:
  "js five_text \<noteq> []" "\<not> isWhiteSpace (hd (js five_text))" "\<not> isWhiteSpace (last (js five_text))"
  "BACKTICK \<notin> set (js five_text)"
  by (simp_all add: five_text_def js_def isWhiteSpace_def)

lemma trim_five: "trim (js five_text) = js five_text"
  by (intro trim_id five_text_shape)

lemma strip_five: "strip_fences (js (fenced five_text)) = js five_text"
  by (simp only: fenced_text strip_fences_fenced [OF no_backtick_no_fence, OF five_text_shape(4)]
      trim_five)

lemma six_text_shape:
  "js six_text \<noteq> []" "\<not> isWhiteSpace (hd (js six_text))" "\<not> isWhiteSpace (last (js six_text))"
  "BACKTICK \<notin> set (js six_text)"
  by (simp_all add: six_text_def js_def isWhiteSpace_def)

lemma strip_six: "strip_fences (js six_text) = js six_text"
  by (intro strip_fences_plain trim_id six_text_shape)

lemma six_blank_text_shape:
  "js six_blank_text \<noteq> []" "\<not> isWhiteSpace (hd (js six_blank_text))"
  "\<not> isWhiteSpace (last (js six_blank_text))" "BACKTICK \<notin> set (js six_blank_text)"
  by (simp_all add: six_blank_text_def js_def isWhiteSpace_def)

lemma strip_six_blank: "strip_fences (js six_blank_text) = js six_blank_text"
  by (intro strip_fences_plain trim_id six_blank_text_shape)

lemma parse_five:
  "JSON_parse_sample (js five_text) = Some (JObject [(js ''faqs'', JArray five_items)])"
  by (simp add: JSON_parse_sample_def)

lemma texts_differ: "js six_text \<noteq> js five_text" "js six_blank_text \<noteq> js five_text"
  "js six_blank_text \<noteq> js six_text"
  by (simp_all add: five_text_def six_text_def six_blank_text_def js_def)

lemma parse_six:
  "JSON_parse_sample (js six_text) = Some (JObject [(js ''faqs'', JArray six_items)])"
  by (simp add: JSON_parse_sample_def texts_differ)

lemma parse_six_blank:
  "JSON_parse_sample (js six_blank_text) = Some (JObject [(js ''faqs'', JArray six_items_blank)])"
  by (simp add: JSON_parse_sample_def texts_differ)

lemma decode_samples:
  "parseFaqResponse JSON_parse_sample [Some (js (fenced five_text))] = Inr five_items"
  "parseFaqResponse JSON_parse_sample [Some (js six_text)] = Inr six_items"
  "parseFaqResponse JSON_parse_sample [Some (js six_blank_text)] = Inr six_items_blank"
proof -
  have faqs: "map_of [(js ''faqs'', JArray xs)] (js ''faqs'') = Some (JArray xs)" for xs
    by simp
  have ne: "js (fenced five_text) \<noteq> []" by (simp add: fenced_def js_def)
  show "parseFaqResponse JSON_parse_sample [Some (js (fenced five_text))] = Inr five_items"
  proof (rule parseFaqResponse_direct)
    show "js (fenced five_text) \<noteq> []" by (rule ne)
    show "direct_decode JSON_parse_sample (strip_fences (js (fenced five_text))) = Some five_items"
      unfolding strip_five by (rule direct_decode_object [where P = JSON_parse_sample and s = "js five_text", OF parse_five faqs])
  qed
  show "parseFaqResponse JSON_parse_sample [Some (js six_text)] = Inr six_items"
  proof (rule parseFaqResponse_direct)
    show "js six_text \<noteq> []" by (rule six_text_shape(1))
    show "direct_decode JSON_parse_sample (strip_fences (js six_text)) = Some six_items"
      unfolding strip_six by (rule direct_decode_object [where P = JSON_parse_sample and s = "js six_text", OF parse_six faqs])
  qed
  show "parseFaqResponse JSON_parse_sample [Some (js six_blank_text)] = Inr six_items_blank"
  proof (rule parseFaqResponse_direct)
    show "js six_blank_text \<noteq> []" by (rule six_blank_text_shape(1))
    show "direct_decode JSON_parse_sample (strip_fences (js six_blank_text)) = Some six_items_blank"
      unfolding strip_six_blank by (rule direct_decode_object [where P = JSON_parse_sample and s = "js six_blank_text", OF parse_six_blank faqs])
  qed
qed

lemma trim_short:
  "trim (js ''Q1'') = js ''Q1''" "trim (js ''Q2'') = js ''Q2''" "trim (js ''Q3'') = js ''Q3''"
  "trim (js ''Q4'') = js ''Q4''" "trim (js ''Q5'') = js ''Q5''" "trim (js ''Q6'') = js ''Q6''"
  "trim (js ''A1'') = js ''A1''" "trim (js ''A2'') = js ''A2''" "trim (js ''A3'') = js ''A3''"
  "trim (js ''A4'') = js ''A4''" "trim (js ''A5'') = js ''A5''" "trim (js ''A6'') = js ''A6''"
  "trim (js '' '') = []"
  by (simp_all add: trim_def js_def isWhiteSpace_def)

lemma key_names: "js ''question'' \<noteq> js ''answer''" "js ''answer'' \<noteq> js ''question''"
  by (simp_all add: js_def)

lemma js_nonempty:
  "js ''Q1'' \<noteq> []" "js ''Q2'' \<noteq> []" "js ''Q3'' \<noteq> []" "js ''Q4'' \<noteq> []" "js ''Q5'' \<noteq> []"
  "js ''Q6'' \<noteq> []" "js ''A1'' \<noteq> []" "js ''A2'' \<noteq> []" "js ''A3'' \<noteq> []" "js ''A4'' \<noteq> []"
  "js ''A5'' \<noteq> []" "js ''A6'' \<noteq> []" "js '' '' \<noteq> []"
  by (simp_all add: js_def)

lemma five_items_valid: "list_all valid_faq five_items"
  by (simp add: five_items_def faq_item_def valid_faq_def key_names trim_short js_nonempty)

lemma six_items_valid: "list_all valid_faq six_items"
  using five_items_valid
  by (simp add: six_items_def faq_item_def valid_faq_def key_names trim_short js_nonempty)

lemma blank_item_invalid: "\<not> valid_faq (faq_item ''Q6'' '' '')"
  by (simp add: faq_item_def valid_faq_def key_names trim_short js_nonempty)

lemma blank_item_msg: "validation_msg i (faq_item ''Q6'' '' '') = MissingAnswer i"
  by (simp add: validation_msg_def faq_item_def key_names trim_short js_nonempty)

lemma five_items_trimmed: "map trim_faq five_items = five_items"
  by (simp add: five_items_def faq_item_def trim_faq_def key_names trim_short)

lemma six_items_trimmed: "map trim_faq six_items = six_items"
  by (simp add: six_items_def five_items_trimmed) (simp add: faq_item_def trim_faq_def key_names trim_short)

lemma sample_lengths: "length five_items = 5" "length six_items = 6" "length six_items_blank = 6"
  by (simp_all add: five_items_def six_items_def six_items_blank_def)

lemma take_five: "take 5 six_items = five_items"
  by (simp add: six_items_def sample_lengths)

lemma sample_ready: "truthy (OPENAI_API_KEY env_sample)" "trim (js ''t'') \<noteq> []"
  by (simp_all add: env_sample_def js_def trim_def isWhiteSpace_def)

lemma answers_request:
  "makeOpenAIRequest (answers content p) 2 = (Inr [Some (js content)], [Create 0])"
proof -
  have "makeOpenAIRequest (answers content p) 2 = (Inr [Some (js content)], events_until 0)"
    by (rule makeOpenAIRequest_run) (simp_all add: outcome_at_def answers_def)
  then show ?thesis by (simp add: events_until_2)
qed

lemma server_error_not_client: "\<not> client_error server_error_500"
  by (simp add: client_error_def server_error_500_def)

lemma sample_counts:
  "faqCount (Some (Finite 5)) = Finite 5" "faqCount (Some (Finite 6.5)) = Finite 6"
  "faqCount (Some (Finite 7)) = Finite 7"
  "count_of (Finite 5) = 5" "count_of (Finite 6) = 6" "count_of (Finite 7) = 7"
  by (simp_all add: faqCount_Finite)

lemma generateFaqs_request:
  assumes "truthy (OPENAI_API_KEY env)" and "trim text \<noteq> []"
    and "makeOpenAIRequest (openai (make_prompt text count)) 2 = (r, events)"
  shows "generateFaqs P env openai text count =
    (case r of
       Inl error \<Rightarrow> Inl (generateFaqs_catch error)
     | Inr completion \<Rightarrow>
         (case parseFaqResponse P completion of
            Inl error \<Rightarrow> Inl (generateFaqs_catch error)
          | Inr faqs \<Rightarrow>
              (case check_faqs (count_of (faqCount count)) faqs of
                 Inl error \<Rightarrow> Inl (generateFaqs_catch error)
               | Inr faqs \<Rightarrow> Inr faqs)), events)"
proof -
  have "text \<noteq> []" using assms(2) by (auto simp: trim_def)
  with assms show ?thesis
    by (simp add: generateFaqs_def generateFaqs_try_def Let_def split: sum.splits)
qed

lemma immediate_request:
  "makeOpenAIRequest (\<lambda>attempt. Inr completion) 2 = (Inr completion, [Create 0])"
proof -
  have "makeOpenAIRequest (\<lambda>attempt. Inr completion) 2 = (Inr completion, events_until 0)"
    by (rule makeOpenAIRequest_run) (simp_all add: outcome_at_def)
  then show ?thesis by (simp add: events_until_2)
qed

lemma run_five:
  "generateFaqs JSON_parse_sample env_sample (answers (fenced five_text)) (js ''t'') (Some (Finite 5))
     = (Inr five_items, [Create 0])"
proof -
  have five: "five_items \<noteq> []" using sample_lengths(1) by auto
  have "check_faqs 5 five_items = Inr (map trim_faq five_items)"
    using five_items_valid five sample_lengths(1) by (rule check_faqs_equal)
  then have check: "check_faqs (count_of (faqCount (Some (Finite 5)))) five_items = Inr five_items"
    by (simp only: sample_counts five_items_trimmed)
  show ?thesis
    by (simp only: generateFaqs_decoded [OF sample_ready answers_request decode_samples(1)]
        check sum.case)
qed


lemma plain_parse:
  "JSON_parse_sample (js ''Sure: []'') = None" "JSON_parse_sample (js ''oops'') = None"
  "JSON_parse_sample (js ''[]'') = Some (JArray [])"
  by (simp_all add: JSON_parse_sample_def five_text_def six_text_def six_blank_text_def
      fence_answer_text_def empty_answer_text_def js_def)








lemma padded_text_shape:
  "js padded_text \<noteq> []" "\<not> isWhiteSpace (hd (js padded_text))"
  "\<not> isWhiteSpace (last (js padded_text))" "BACKTICK \<notin> set (js padded_text)"
  by (simp_all add: padded_text_def js_def isWhiteSpace_def)

lemma strip_padded: "strip_fences (js padded_text) = js padded_text"
  by (intro strip_fences_plain trim_id padded_text_shape)

lemma decode_padded:
  "parseFaqResponse JSON_parse_padded [Some (js padded_text)] = Inr padded_items"
proof (rule parseFaqResponse_direct)
  show "js padded_text \<noteq> []" by (rule padded_text_shape(1))
  have parse: "JSON_parse_padded (js padded_text) = Some (JObject [(js ''faqs'', JArray padded_items)])"
    by (simp add: JSON_parse_padded_def)
  have faqs: "map_of [(js ''faqs'', JArray padded_items)] (js ''faqs'') = Some (JArray padded_items)"
    by simp
  show "direct_decode JSON_parse_padded (strip_fences (js padded_text)) = Some padded_items"
    unfolding strip_padded
    by (rule direct_decode_object [where P = JSON_parse_padded and s = "js padded_text",
          OF parse faqs])
qed

lemma trim_padded: "trim (js '' Q1'') = js ''Q1''" "trim (js ''A1 '') = js ''A1''"
  by (simp_all add: trim_def js_def isWhiteSpace_def)

lemma padded_length: "length padded_items = 6"
  by (simp add: padded_items_def)

lemma padded_items_valid: "list_all valid_faq padded_items"
  by (simp add: padded_items_def faq_item_def valid_faq_def key_names trim_short trim_padded
      js_nonempty) (simp add: js_def)

lemma padded_items_trimmed: "map trim_faq padded_items = six_items"
  by (simp add: padded_items_def six_items_def five_items_def faq_item_def trim_faq_def key_names
      trim_short trim_padded)

lemma decode_empty_array: "parseFaqResponse JSON_parse_sample [Some (js ''[]'')] = Inr []"
proof (rule parseFaqResponse_direct)
  show "js ''[]'' \<noteq> []" by (simp add: js_def)
  have "strip_fences (js ''[]'') = js ''[]''"
    by (rule strip_fences_plain) (simp_all add: trim_def js_def isWhiteSpace_def)
  then show "direct_decode JSON_parse_sample (strip_fences (js ''[]'')) = Some []"
    by (simp add: direct_decode_def plain_parse)
qed











section \<open>FAQ Synthesizer: the claims\<close>

text \<open>
  C2. The count that \<open>generateFaqs\<close> uses is the floor of the requested count clamped
  into 5..10: a finite number is floored, then clamped; \<open>NaN\<close> and a missing argument
  give the baseline 5 (so does 0, which the clamp gives as well); the infinities are
  clamped to 10 and 5. Every successful call returns exactly that many items.
\<close>

theorem effective_count:
  "faqCount (Some (Finite r)) = Finite (of_int (min (max \<lfloor>r\<rfloor> 5) 10)) \<and>
   faqCount (Some NaN) = Finite 5 \<and>
   faqCount None = Finite 5 \<and>
   faqCount (Some PosInfinity) = Finite 10 \<and>
   faqCount (Some NegInfinity) = Finite 5 \<and>
   (\<forall>faqs events. generateFaqs P env openai text count = (Inr faqs, events) \<longrightarrow>
      Finite (real (length faqs)) = faqCount count)"
proof -
  have "Finite (real (length faqs)) = faqCount count"
    if "generateFaqs P env openai text count = (Inr faqs, events)" for faqs events
  proof -
    from that have "length faqs = count_of (faqCount count)"
      by (rule generateFaqs_success_length)
    with faqCount_range [of count] show ?thesis by auto
  qed
  then show ?thesis by (simp only: faqCount_Finite faqCount_other simp_thms) blast
qed

theorem effective_count_witness:
  "generateFaqs JSON_parse_sample env_sample (answers six_text) (js ''t'') (Some (Finite 6.5))
     = (Inr six_items, [Create 0]) \<and>
   Finite (real (length six_items)) = faqCount (Some (Finite 6.5)) \<and>
   faqCount (Some (Finite 6.5)) = Finite 6"
proof -
  have six: "six_items \<noteq> []" using sample_lengths(2) by auto
  have "check_faqs 6 six_items = Inr (map trim_faq six_items)"
    using six_items_valid six sample_lengths(2) by (rule check_faqs_equal)
  then have check: "check_faqs (count_of (faqCount (Some (Finite 6.5)))) six_items = Inr six_items"
    by (simp only: sample_counts six_items_trimmed)
  have run: "generateFaqs JSON_parse_sample env_sample (answers six_text) (js ''t'') (Some (Finite 6.5))
     = (Inr six_items, [Create 0])"
    by (simp only: generateFaqs_decoded [OF sample_ready answers_request decode_samples(2)]
        check sum.case)
  from effective_count [of "6.5" JSON_parse_sample env_sample "answers six_text" "js ''t''"
      "Some (Finite 6.5)"] run
  show ?thesis by (simp only: sample_counts simp_thms)
qed

text \<open>
  C1 as stated fails: the decoded response has six items for a count of five, the sixth
  with a blank answer, and the call fails instead of returning the first five.
\<close>

theorem invalid_extra_item_counterexample:
  "count_of (faqCount (Some (Finite 5))) = 5 \<and>
   parseFaqResponse JSON_parse_sample [Some (js six_blank_text)] = Inr six_items_blank \<and>
   length six_items_blank = 6 \<and>
   take 5 six_items_blank = five_items \<and>
   generateFaqs JSON_parse_sample env_sample (answers six_blank_text) (js ''t'') (Some (Finite 5))
     = (Inl (OpenAIApiError (JsError (MissingAnswer 5))), [Create 0])"
proof -
  have "check_faqs 5 (five_items @ faq_item ''Q6'' '' '' # [])
      = Inl (JsError (validation_msg (length five_items) (faq_item ''Q6'' '' '')))"
    by (rule check_faqs_invalid [OF five_items_valid blank_item_invalid])
  then have "check_faqs 5 six_items_blank = Inl (JsError (MissingAnswer 5))"
    by (simp add: six_items_blank_def blank_item_msg sample_lengths)
  then have "generateFaqs JSON_parse_sample env_sample (answers six_blank_text) (js ''t'')
      (Some (Finite 5)) = (Inl (OpenAIApiError (JsError (MissingAnswer 5))), [Create 0])"
    by (simp add: generateFaqs_decoded [OF sample_ready answers_request decode_samples(3)]
        sample_counts)
  then show ?thesis
    by (simp add: sample_counts decode_samples sample_lengths) (simp add: six_items_blank_def sample_lengths)
qed

text \<open>
  C1, as amended. A successful call returns exactly \<open>clamp(floor(count), 5, 10)\<close> items.
  When the request succeeded and every decoded item passes the validation loop: more
  items than the count give the first count items, with question and answer trimmed,
  and no error; fewer items make the call fail, with \<open>Failed to generate exactly n
  FAQs\<close>, or with \<open>No FAQs generated\<close> when there is none. Nothing shorter than the
  count is ever returned. Trimmed means: in an item that passes the validation loop the
  strings of \<open>question\<close> and \<open>answer\<close> are replaced by their trimmed strings, which
  are not empty, and every other property is kept.
\<close>

theorem exact_count_or_failure:
  "(\<forall>faqs events. generateFaqs P env openai text count = (Inr faqs, events) \<longrightarrow>
      length faqs = count_of (faqCount count) \<and> 5 \<le> length faqs \<and> length faqs \<le> 10) \<and>
   (truthy (OPENAI_API_KEY env) \<and> trim text \<noteq> [] \<and>
    makeOpenAIRequest (openai (make_prompt text count)) 2 = (Inr completion, events) \<and>
    parseFaqResponse P completion = Inr items \<and> list_all valid_faq items \<longrightarrow>
      (count_of (faqCount count) < length items \<longrightarrow>
         generateFaqs P env openai text count
           = (Inr (take (count_of (faqCount count)) (map trim_faq items)), events)) \<and>
      (items \<noteq> [] \<and> length items < count_of (faqCount count) \<longrightarrow>
         generateFaqs P env openai text count
           = (Inl (OpenAIApiError (JsError
                (FailedToGenerateExactly (count_of (faqCount count)) (length items)))), events)) \<and>
      (items = [] \<longrightarrow>
         generateFaqs P env openai text count
           = (Inl (OpenAIApiError (JsError NoFaqsGenerated)), events))) \<and>
   (valid_faq faq \<longrightarrow>
      (\<exists>q a. property faq (js ''question'') = Some (JString q) \<and>
         property faq (js ''answer'') = Some (JString a) \<and>
         property (trim_faq faq) (js ''question'') = Some (JString (trim q)) \<and>
         property (trim_faq faq) (js ''answer'') = Some (JString (trim a)) \<and>
         trim q \<noteq> [] \<and> trim a \<noteq> [] \<and>
         (\<forall>k. k \<noteq> js ''question'' \<and> k \<noteq> js ''answer'' \<longrightarrow>
            property (trim_faq faq) k = property faq k)))"
proof (intro conjI allI impI)
  fix faqs events
  assume ok: "generateFaqs P env openai text count = (Inr faqs, events)"
  then show len: "length faqs = count_of (faqCount count)"
    by (rule generateFaqs_success_length)
  from faqCount_range [of count] len show "5 \<le> length faqs" "length faqs \<le> 10" by auto
next
  assume a: "truthy (OPENAI_API_KEY env) \<and> trim text \<noteq> [] \<and>
    makeOpenAIRequest (openai (make_prompt text count)) 2 = (Inr completion, events) \<and>
    parseFaqResponse P completion = Inr items \<and> list_all valid_faq items"
  then have run: "generateFaqs P env openai text count =
    (case check_faqs (count_of (faqCount count)) items of
       Inl error \<Rightarrow> Inl (generateFaqs_catch error) | Inr faqs \<Rightarrow> Inr faqs, events)"
    using generateFaqs_decoded [of env "text" openai count completion events P items] by blast
  from a have valid: "list_all valid_faq items" by simp
  {
    assume "count_of (faqCount count) < length items"
    then show "generateFaqs P env openai text count
           = (Inr (take (count_of (faqCount count)) (map trim_faq items)), events)"
      by (simp add: run check_faqs_more [OF valid])
  next
    assume "items \<noteq> [] \<and> length items < count_of (faqCount count)"
    then show "generateFaqs P env openai text count
           = (Inl (OpenAIApiError (JsError
                (FailedToGenerateExactly (count_of (faqCount count)) (length items)))), events)"
      by (simp add: run check_faqs_fewer [OF valid])
  next
    assume "items = []"
    then show "generateFaqs P env openai text count
           = (Inl (OpenAIApiError (JsError NoFaqsGenerated)), events)"
      by (simp add: run check_faqs_def)
  }
next
  assume "valid_faq faq"
  then show "\<exists>q a. property faq (js ''question'') = Some (JString q) \<and>
         property faq (js ''answer'') = Some (JString a) \<and>
         property (trim_faq faq) (js ''question'') = Some (JString (trim q)) \<and>
         property (trim_faq faq) (js ''answer'') = Some (JString (trim a)) \<and>
         trim q \<noteq> [] \<and> trim a \<noteq> [] \<and>
         (\<forall>k. k \<noteq> js ''question'' \<and> k \<noteq> js ''answer'' \<longrightarrow>
            property (trim_faq faq) k = property faq k)"
    by (rule trim_faq_properties)
qed

text \<open>
  Six valid items, the first with the question \<open>" Q1"\<close> and the answer \<open>"A1 "\<close>: with
  a count of 5 the first five are returned, the first with \<open>"Q1"\<close> and \<open>"A1"\<close>. Six
  valid items with a count of 7, and the empty array: the call fails.
\<close>

theorem exact_count_witness:
  "parseFaqResponse JSON_parse_padded [Some (js padded_text)] = Inr padded_items \<and>
   length padded_items = 6 \<and> list_all valid_faq padded_items \<and>
   padded_items ! 0 = faq_item '' Q1'' ''A1 '' \<and>
   property (trim_faq (faq_item '' Q1'' ''A1 '')) (js ''question'') = Some (JString (js ''Q1'')) \<and>
   property (trim_faq (faq_item '' Q1'' ''A1 '')) (js ''answer'') = Some (JString (js ''A1'')) \<and>
   generateFaqs JSON_parse_padded env_sample (answers padded_text) (js ''t'') (Some (Finite 5))
     = (Inr five_items, [Create 0]) \<and>
   length five_items = 5 \<and> five_items ! 0 = faq_item ''Q1'' ''A1'' \<and>
   take 5 padded_items \<noteq> five_items \<and>
   generateFaqs JSON_parse_sample env_sample (answers six_text) (js ''t'') (Some (Finite 7))
     = (Inl (OpenAIApiError (JsError (FailedToGenerateExactly 7 6))), [Create 0]) \<and>
   generateFaqs JSON_parse_sample env_sample (answers ''[]'') (js ''t'') (Some (Finite 5))
     = (Inl (OpenAIApiError (JsError NoFaqsGenerated)), [Create 0])"
proof -
  note five = exact_count_or_failure [where P = JSON_parse_padded and env = env_sample
      and openai = "answers padded_text" and ?text = "js ''t''" and count = "Some (Finite 5)"
      and completion = "[Some (js padded_text)]" and events = "[Create 0]" and items = padded_items
      and faq = "faq_item '' Q1'' ''A1 ''"]
  note seven = exact_count_or_failure [where P = JSON_parse_sample and env = env_sample
      and openai = "answers six_text" and ?text = "js ''t''" and count = "Some (Finite 7)"
      and completion = "[Some (js six_text)]" and events = "[Create 0]" and items = six_items]
  note none = exact_count_or_failure [where P = JSON_parse_sample and env = env_sample
      and openai = "answers ''[]''" and ?text = "js ''t''" and count = "Some (Finite 5)"
      and completion = "[Some (js ''[]'')]" and events = "[Create 0]" and items = "[]"]
  have six: "six_items \<noteq> []" using sample_lengths(2) by auto
  have 1: "generateFaqs JSON_parse_padded env_sample (answers padded_text) (js ''t'') (Some (Finite 5))
     = (Inr five_items, [Create 0])"
    using five
    by (simp add: sample_ready answers_request decode_padded padded_items_valid sample_counts
        padded_length padded_items_trimmed take_five)
  have first: "valid_faq (faq_item '' Q1'' ''A1 '')"
    using padded_items_valid by (simp add: padded_items_def)
  have 2: "property (trim_faq (faq_item '' Q1'' ''A1 '')) (js ''question'') = Some (JString (js ''Q1''))"
    "property (trim_faq (faq_item '' Q1'' ''A1 '')) (js ''answer'') = Some (JString (js ''A1''))"
    using five first by (auto simp: faq_item_def key_names trim_padded)
  have 3: "generateFaqs JSON_parse_sample env_sample (answers six_text) (js ''t'') (Some (Finite 7))
     = (Inl (OpenAIApiError (JsError (FailedToGenerateExactly 7 6))), [Create 0])"
    using seven six
    by (simp add: sample_ready answers_request decode_samples six_items_valid sample_counts
        sample_lengths)
  have 4: "generateFaqs JSON_parse_sample env_sample (answers ''[]'') (js ''t'') (Some (Finite 5))
     = (Inl (OpenAIApiError (JsError NoFaqsGenerated)), [Create 0])"
    using none by (simp add: sample_ready answers_request decode_empty_array)
  have 5: "padded_items ! 0 = faq_item '' Q1'' ''A1 ''" "five_items ! 0 = faq_item ''Q1'' ''A1''"
    by (simp_all add: padded_items_def five_items_def)
  have 6: "take 5 padded_items \<noteq> five_items"
    by (simp add: padded_items_def five_items_def faq_item_def js_def)
  show ?thesis
    by (simp only: decode_padded padded_length padded_items_valid 1 2 3 4 5 6 sample_lengths
        simp_thms)
qed

text \<open>
  C10. The validation loop runs over every decoded item before the excess is cut off.
  When the request succeeded and item \<open>i\<close> is the first one that is not an object with
  a non-blank string question and answer, the call fails with the message of the loop
  for index \<open>i\<close>, whatever the count: also when \<open>i\<close> is at or beyond the count, where
  the item would have been cut off. So a response with any such item never gives a
  result.
\<close>

theorem validation_before_trimming:
  "truthy (OPENAI_API_KEY env) \<and> trim text \<noteq> [] \<and>
   makeOpenAIRequest (openai (make_prompt text count)) 2 = (Inr completion, events) \<and>
   parseFaqResponse P completion = Inr items \<longrightarrow>
     (\<forall>i. i < length items \<and> \<not> valid_faq (items ! i) \<and> (\<forall>j<i. valid_faq (items ! j)) \<longrightarrow>
        generateFaqs P env openai text count
          = (Inl (OpenAIApiError (JsError (validation_msg i (items ! i)))), events)) \<and>
     (\<not> list_all valid_faq items \<longrightarrow>
        (\<exists>i<length items. \<not> valid_faq (items ! i) \<and>
           generateFaqs P env openai text count
             = (Inl (OpenAIApiError (JsError (validation_msg i (items ! i)))), events)))"
proof (intro impI)
  assume a: "truthy (OPENAI_API_KEY env) \<and> trim text \<noteq> [] \<and>
   makeOpenAIRequest (openai (make_prompt text count)) 2 = (Inr completion, events) \<and>
   parseFaqResponse P completion = Inr items"
  then have run: "generateFaqs P env openai text count =
    (case check_faqs (count_of (faqCount count)) items of
       Inl error \<Rightarrow> Inl (generateFaqs_catch error) | Inr faqs \<Rightarrow> Inr faqs, events)"
    using generateFaqs_decoded [of env "text" openai count completion events P items] by blast
  have first: "generateFaqs P env openai text count
          = (Inl (OpenAIApiError (JsError (validation_msg i (items ! i)))), events)"
    if i: "i < length items" "\<not> valid_faq (items ! i)" "\<forall>j<i. valid_faq (items ! j)" for i
  proof -
    have split: "items = take i items @ items ! i # drop (Suc i) items"
      using i(1) by (rule id_take_nth_drop)
    have pre: "list_all valid_faq (take i items)"
      using i(1,3) by (auto simp: list_all_iff in_set_conv_nth)
    have "check_faqs (count_of (faqCount count)) (take i items @ items ! i # drop (Suc i) items)
        = Inl (JsError (validation_msg (length (take i items)) (items ! i)))"
      by (rule check_faqs_invalid [OF pre i(2)])
    with split i(1) have "check_faqs (count_of (faqCount count)) items
        = Inl (JsError (validation_msg i (items ! i)))"
      by simp
    then show ?thesis by (simp add: run validation_msg_def)
  qed
  have some: "\<exists>i<length items. \<not> valid_faq (items ! i) \<and>
           generateFaqs P env openai text count
             = (Inl (OpenAIApiError (JsError (validation_msg i (items ! i)))), events)"
    if "\<not> list_all valid_faq items"
  proof -
    from that have ex: "\<exists>i. i < length items \<and> \<not> valid_faq (items ! i)"
      by (auto simp: list_all_iff in_set_conv_nth)
    define i where "i = (LEAST i. i < length items \<and> \<not> valid_faq (items ! i))"
    have i: "i < length items \<and> \<not> valid_faq (items ! i)"
      unfolding i_def using ex by (rule LeastI_ex)
    have "valid_faq (items ! j)" if "j < i" for j
    proof (rule ccontr)
      assume "\<not> valid_faq (items ! j)"
      with that i have "j < length items \<and> \<not> valid_faq (items ! j)" by simp
      then have "i \<le> j" unfolding i_def by (rule Least_le)
      with that show False by simp
    qed
    with i first [of i] show ?thesis by blast
  qed
  from first some show "(\<forall>i. i < length items \<and> \<not> valid_faq (items ! i) \<and> (\<forall>j<i. valid_faq (items ! j)) \<longrightarrow>
        generateFaqs P env openai text count
          = (Inl (OpenAIApiError (JsError (validation_msg i (items ! i)))), events)) \<and>
     (\<not> list_all valid_faq items \<longrightarrow>
        (\<exists>i<length items. \<not> valid_faq (items ! i) \<and>
           generateFaqs P env openai text count
             = (Inl (OpenAIApiError (JsError (validation_msg i (items ! i)))), events)))"
    by blast
qed

text \<open>
  C10 on the response with six items whose sixth has a blank answer, for a count of 5.
\<close>

theorem validation_before_trimming_witness:
  "length six_items_blank = 6 \<and> count_of (faqCount (Some (Finite 5))) = 5 \<and>
   six_items_blank ! 5 = faq_item ''Q6'' '' '' \<and> \<not> valid_faq (six_items_blank ! 5) \<and>
   validation_msg 5 (six_items_blank ! 5) = MissingAnswer 5 \<and>
   generateFaqs JSON_parse_sample env_sample (answers six_blank_text) (js ''t'') (Some (Finite 5))
     = (Inl (OpenAIApiError (JsError (validation_msg 5 (six_items_blank ! 5)))), [Create 0])"
proof -
  have nth: "six_items_blank ! 5 = faq_item ''Q6'' '' ''"
    by (simp add: six_items_blank_def nth_append sample_lengths)
  have before: "\<forall>j<5. valid_faq (six_items_blank ! j)"
    using five_items_valid
    by (simp add: six_items_blank_def nth_append sample_lengths list_all_length)
  have bad: "\<not> valid_faq (six_items_blank ! 5)"
    unfolding nth by (rule blank_item_invalid)
  from validation_before_trimming [of env_sample "js ''t''" "answers six_blank_text"
      "Some (Finite 5)" "[Some (js six_blank_text)]" "[Create 0]" JSON_parse_sample six_items_blank]
    sample_ready answers_request decode_samples(3) before bad sample_lengths(3)
  have "generateFaqs JSON_parse_sample env_sample (answers six_blank_text) (js ''t'') (Some (Finite 5))
     = (Inl (OpenAIApiError (JsError (validation_msg 5 (six_items_blank ! 5)))), [Create 0])"
    by simp
  with nth bad show ?thesis
    by (simp only: sample_lengths sample_counts blank_item_msg simp_thms)
qed

text \<open>
  C3. In a call of \<open>generateFaqs\<close> that reaches the provider, let request \<open>k\<close> (0, 1
  or 2) be the first that does not fail with an error outside 400..499. When it
  succeeds, the call gives what it would have given had the first request returned that
  completion. When it fails with a status in 400..499, or when it is the third
  request, its error is the one the call reports. In each case the events of the call
  are requests 0..k with a sleep of \<open>2^j\<close> seconds after each failed request \<open>j < k\<close>:
  no request follows a 4xx error, at most two retries are made, after 1 s and 2 s.
\<close>

theorem retry_policy:
  "truthy (OPENAI_API_KEY env) \<and> trim text \<noteq> [] \<and> k \<le> 2 \<and>
   (\<forall>j<k. \<exists>e. openai (make_prompt text count) j = Inl e \<and> \<not> client_error e) \<longrightarrow>
     (\<forall>completion. openai (make_prompt text count) k = Inr completion \<longrightarrow>
        generateFaqs P env openai text count
          = (fst (generateFaqs P env (\<lambda>prompt attempt. Inr completion) text count), events_until k)) \<and>
     (\<forall>e. openai (make_prompt text count) k = Inl e \<and> (client_error e \<or> k = 2) \<longrightarrow>
        generateFaqs P env openai text count
          = (Inl (generateFaqs_catch (ApiError e)), events_until k)) \<and>
     events_until 0 = [Create 0] \<and>
     events_until 1 = [Create 0, Sleep 1000, Create 1] \<and>
     events_until 2 = [Create 0, Sleep 1000, Create 1, Sleep 2000, Create 2]"
proof (intro impI)
  let ?create = "openai (make_prompt text count)"
  assume a: "truthy (OPENAI_API_KEY env) \<and> trim text \<noteq> [] \<and> k \<le> 2 \<and>
   (\<forall>j<k. \<exists>e. ?create j = Inl e \<and> \<not> client_error e)"
  then have ready: "truthy (OPENAI_API_KEY env)" "trim text \<noteq> []" and k: "k \<le> 2" by simp_all
  have before: "\<forall>j<k. outcome_at ?create 2 j = None"
  proof (intro allI impI)
    fix j assume j: "j < k"
    with a obtain e where "?create j = Inl e" "\<not> client_error e" by blast
    moreover have "j \<noteq> 2" using j k by simp
    ultimately show "outcome_at ?create 2 j = None" by (simp add: outcome_at_def)
  qed
  have success: "generateFaqs P env openai text count
          = (fst (generateFaqs P env (\<lambda>prompt attempt. Inr completion) text count), events_until k)"
    if c: "?create k = Inr completion" for completion
  proof -
    have "outcome_at ?create 2 k = Some (Inr completion)" using c by (simp add: outcome_at_def)
    with k before have "makeOpenAIRequest ?create 2 = (Inr completion, events_until k)"
      by (intro makeOpenAIRequest_run) simp_all
    from generateFaqs_request [of env "text" openai count _ _ P, OF ready this]
    have slow: "generateFaqs P env openai text count =
      (case parseFaqResponse P completion of
         Inl error \<Rightarrow> Inl (generateFaqs_catch error)
       | Inr faqs \<Rightarrow>
           (case check_faqs (count_of (faqCount count)) faqs of
              Inl error \<Rightarrow> Inl (generateFaqs_catch error)
            | Inr faqs \<Rightarrow> Inr faqs), events_until k)"
      by simp
    have "makeOpenAIRequest ((\<lambda>prompt attempt. Inr completion) (make_prompt text count)) 2
        = (Inr completion, [Create 0])"
      by (simp add: immediate_request)
    with ready have "generateFaqs P env (\<lambda>prompt attempt. Inr completion) text count =
      (case parseFaqResponse P completion of
         Inl error \<Rightarrow> Inl (generateFaqs_catch error)
       | Inr faqs \<Rightarrow>
           (case check_faqs (count_of (faqCount count)) faqs of
              Inl error \<Rightarrow> Inl (generateFaqs_catch error)
            | Inr faqs \<Rightarrow> Inr faqs), [Create 0])"
      using generateFaqs_request [of env "text" "\<lambda>prompt attempt. Inr completion" count
          "Inr completion" "[Create 0]" P]
      by simp
    with slow show ?thesis by simp
  qed
  have failure: "generateFaqs P env openai text count
          = (Inl (generateFaqs_catch (ApiError e)), events_until k)"
    if e: "?create k = Inl e \<and> (client_error e \<or> k = 2)" for e
  proof -
    have "outcome_at ?create 2 k = Some (Inl (ApiError e))" using e by (auto simp: outcome_at_def)
    with k before have "makeOpenAIRequest ?create 2 = (Inl (ApiError e), events_until k)"
      by (intro makeOpenAIRequest_run) simp_all
    from generateFaqs_request [of env "text" openai count _ _ P, OF ready this] show ?thesis by simp
  qed
  from success failure events_until_2
  show "(\<forall>completion. ?create k = Inr completion \<longrightarrow>
        generateFaqs P env openai text count
          = (fst (generateFaqs P env (\<lambda>prompt attempt. Inr completion) text count), events_until k)) \<and>
     (\<forall>e. ?create k = Inl e \<and> (client_error e \<or> k = 2) \<longrightarrow>
        generateFaqs P env openai text count
          = (Inl (generateFaqs_catch (ApiError e)), events_until k)) \<and>
     events_until 0 = [Create 0] \<and>
     events_until 1 = [Create 0, Sleep 1000, Create 1] \<and>
     events_until 2 = [Create 0, Sleep 1000, Create 1, Sleep 2000, Create 2]"
    by blast
qed

text \<open>
  The provider fails with a 500 twice, then returns the fenced response of five items;
  and a provider that fails with a 401.
\<close>

theorem retry_policy_witness:
  "rejects (make_prompt (js ''t'') (Some (Finite 5))) 0 = Inl unauthorized_401 \<and>
   client_error unauthorized_401 \<and>
   generateFaqs JSON_parse_sample env_sample rejects (js ''t'') (Some (Finite 5))
     = (Inl (OpenAIApiError (ApiError unauthorized_401)), [Create 0]) \<and>
   fails_twice_then_answers (fenced five_text) (make_prompt (js ''t'') (Some (Finite 5))) 0
     = Inl server_error_500 \<and>
   fails_twice_then_answers (fenced five_text) (make_prompt (js ''t'') (Some (Finite 5))) 1
     = Inl server_error_500 \<and>
   \<not> client_error server_error_500 \<and>
   fails_twice_then_answers (fenced five_text) (make_prompt (js ''t'') (Some (Finite 5))) 2
     = Inr [Some (js (fenced five_text))] \<and>
   generateFaqs JSON_parse_sample env_sample (fails_twice_then_answers (fenced five_text)) (js ''t'')
       (Some (Finite 5))
     = (Inr five_items, [Create 0, Sleep 1000, Create 1, Sleep 2000, Create 2])"
proof -
  let ?create = "fails_twice_then_answers (fenced five_text) (make_prompt (js ''t'') (Some (Finite 5)))"
  have 0: "?create 0 = Inl server_error_500" and 1: "?create 1 = Inl server_error_500"
    and 2: "?create 2 = Inr [Some (js (fenced five_text))]"
    by (simp_all add: fails_twice_then_answers_def)
  have before: "\<forall>j<2. \<exists>e. ?create j = Inl e \<and> \<not> client_error e"
    by (simp add: fails_twice_then_answers_def server_error_not_client)
  have immediate: "(\<lambda>prompt attempt. Inr [Some (js (fenced five_text))]) = answers (fenced five_text)"
    by (simp add: answers_def)
  from retry_policy [of env_sample "js ''t''" 2 "fails_twice_then_answers (fenced five_text)"
      "Some (Finite 5)" JSON_parse_sample] sample_ready before 2
  have "generateFaqs JSON_parse_sample env_sample (fails_twice_then_answers (fenced five_text)) (js ''t'')
       (Some (Finite 5))
     = (fst (generateFaqs JSON_parse_sample env_sample (answers (fenced five_text)) (js ''t'')
         (Some (Finite 5))), events_until 2)"
    by (simp add: immediate)
  then have slow: "generateFaqs JSON_parse_sample env_sample
      (fails_twice_then_answers (fenced five_text)) (js ''t'') (Some (Finite 5))
     = (Inr five_items, [Create 0, Sleep 1000, Create 1, Sleep 2000, Create 2])"
    by (simp only: run_five events_until_2 fst_conv)
  have rejected: "rejects (make_prompt (js ''t'') (Some (Finite 5))) 0 = Inl unauthorized_401"
    by (simp add: rejects_def)
  have client: "client_error unauthorized_401"
    by (simp add: client_error_def unauthorized_401_def)
  have catch: "generateFaqs_catch (ApiError unauthorized_401) = OpenAIApiError (ApiError unauthorized_401)"
    by (simp add: unauthorized_401_def js_def)
  from retry_policy [of env_sample "js ''t''" 0 rejects "Some (Finite 5)" JSON_parse_sample]
    sample_ready rejected client
  have "generateFaqs JSON_parse_sample env_sample rejects (js ''t'') (Some (Finite 5))
     = (Inl (generateFaqs_catch (ApiError unauthorized_401)), [Create 0])"
    by simp
  with slow show ?thesis
    by (simp only: catch rejected client 0 1 2 server_error_not_client simp_thms)
qed




end
